theory Spec2Isabelle
  imports Main
begin

section \<open>Shared vocabulary\<close>

text \<open>
  Addresses and transaction hashes are JavaScript strings; block numbers, epoch ids and
  token amounts are \<open>bigint\<close> values read from \<open>uint256\<close> fields, so they are natural
  numbers, except where the source subtracts (block arithmetic), which is done on \<open>int\<close>.
  \<open>Date.now()\<close> is a parameter of every handler: a clock reading in milliseconds.

  A timer handle kept in a ref is modelled by the due time of the timer while it is
  armed and by \<open>None\<close> once it was cleared or has fired: a cleared or fired handle is inert
  in the source, whether or not the ref was also set to \<open>null\<close>.

  Every handler runs to its end on the current state: the state a callback captured when
  it was rendered is taken to be the current one, and two handlers are not interleaved at
  their \<open>await\<close>s.
\<close>

type_synonym address = string

text \<open>
  \<open>toLowerCase\<close> on the characters an address can hold: the letters A to Z are
  replaced, every other character is kept.
\<close>

definition lowerChar :: "char \<Rightarrow> char" where
  "lowerChar c =
     (case map_of (zip ''ABCDEFGHIJKLMNOPQRSTUVWXYZ'' ''abcdefghijklmnopqrstuvwxyz'') c of
        None \<Rightarrow> c
      | Some l \<Rightarrow> l)"

definition toLowerCase :: "string \<Rightarrow> string" where
  "toLowerCase s = map lowerChar s"

record WinLog =
  w_spinner :: address
  w_epochId :: nat
  w_oddsPercent :: nat
  w_amount :: nat
  w_transactionHash :: string
  w_blockNumber :: int

record SpinLog =
  s_sender :: address
  s_spinner :: address
  s_epochId :: nat
  s_price :: nat
  s_transactionHash :: string
  s_blockNumber :: int

section \<open>The local spin lifecycle of the page component\<close>

datatype SpinState = idle | pending | confirming | waiting_vrf

record RigState =
  ups :: nat
  unitPrice :: nat
  unitBalance :: nat
  ethBalance :: nat
  wethBalance :: nat
  prizePool :: nat
  pendingEmissions :: nat
  epochId :: nat
  price :: nat

definition DEADLINE_BUFFER_SECONDS :: nat where
  "DEADLINE_BUFFER_SECONDS = 15 * 60"

definition VRF_TIMEOUT_MS :: nat where
  "VRF_TIMEOUT_MS = 120000"

definition BALANCE_POLL_INTERVAL_MS :: nat where
  "BALANCE_POLL_INTERVAL_MS = 2000"

text \<open>
  Calls that leave the component are recorded, in order, in the \<open>effects\<close> field of the
  state: wallet connection, the contract write with its arguments (account, epoch id,
  deadline, maximal price, value), \<open>resetWrite()\<close>, \<open>refetchRigState()\<close> and console output.
\<close>

datatype effect =
    ConnectAsync
  | WriteContract address nat nat nat nat
  | ResetWrite
  | RefetchRigState
  | ConsoleError string
  | ConsoleLog string

record Page =
  localSpinState :: SpinState
  pendingEpochId :: "nat option"
  vrfTimeoutRef :: "nat option"
  balancePollRef :: "nat option"
  preSpinBalanceRef :: "nat option"
  effects :: "effect list"

text \<open>
  What \<open>handleSpin\<close> reads from its closure and from the wallet: the rig snapshot, the
  connected address, whether a connector exists, what \<open>connectAsync\<close> answers (\<open>None\<close>:
  it rejects, otherwise the accounts), the entropy fee, whether \<open>writeContract\<close> returns
  or throws, and the clock.

  The \<open>writeContract\<close> of the page is the mutate function of wagmi's write hook: it hands
  the request to the wallet and returns at once, and a rejected or failed submission is
  reported in the hook's error state, which the page does not read. So in every
  environment the page can be in \<open>writeContractReturns\<close> is true; the other value is
  there only because the source wraps the call in its \<open>try\<close> block.
\<close>

record SpinEnv =
  rigState :: "RigState option"
  address :: "address option"
  primaryConnector :: bool
  connectAsync :: "address list option"
  entropyFee :: "nat option"
  writeContractReturns :: bool
  clock :: nat

definition truthy :: "address option \<Rightarrow> bool" where
  "truthy a = (case a of None \<Rightarrow> False | Some s \<Rightarrow> s \<noteq> [])"

definition initialPage :: Page where
  "initialPage = \<lparr> localSpinState = idle, pendingEpochId = None, vrfTimeoutRef = None,
     balancePollRef = None, preSpinBalanceRef = None, effects = [] \<rparr>"

text \<open>The \<open>catch\<close> block of \<open>handleSpin\<close>.\<close>

definition spinFailed :: "Page \<Rightarrow> Page" where
  "spinFailed st =
     st\<lparr> localSpinState := idle,
         effects := effects st @ [ConsoleError ''Spin failed:'', ResetWrite] \<rparr>"

text \<open>
  The first half of the \<open>try\<close> block: the target address is the connected address, or
  the first account \<open>connectAsync\<close> returns. \<open>Inl\<close> is a throw, with the state at the
  moment of the throw.
\<close>

definition resolveTarget :: "SpinEnv \<Rightarrow> Page \<Rightarrow> Page + (address option \<times> Page)" where
  "resolveTarget env st =
     (if truthy (address env) then Inr (address env, st)
      else if \<not> primaryConnector env then Inl st
      else
        (let st1 = st\<lparr> effects := effects st @ [ConnectAsync] \<rparr>
         in case connectAsync env of
              None \<Rightarrow> Inl st1
            | Some accounts \<Rightarrow>
                Inr ((case accounts of [] \<Rightarrow> None | a # _ \<Rightarrow> Some a), st1)))"

definition maxPriceOf :: "nat \<Rightarrow> nat" where
  "maxPriceOf p = (if p = 0 then 0 else (p * 105) div 100)"

definition handleSpin :: "SpinEnv \<Rightarrow> Page \<Rightarrow> Page" where
  "handleSpin env st =
     (case rigState env of
        None \<Rightarrow> st
      | Some rs \<Rightarrow>
          if localSpinState st \<noteq> idle then st
          else
            (case resolveTarget env st of
               Inl st1 \<Rightarrow> spinFailed st1
             | Inr (targetAddress, st1) \<Rightarrow>
                 if \<not> truthy targetAddress then spinFailed st1
                 else
                   (let deadline = clock env div 1000 + DEADLINE_BUFFER_SECONDS;
                        fee = (case entropyFee env of None \<Rightarrow> 0 | Some f \<Rightarrow> f);
                        st2 = st1\<lparr> localSpinState := pending,
                                   preSpinBalanceRef := Some (unitBalance rs),
                                   pendingEpochId := Some (epochId rs),
                                   effects := effects st1 @
                                     [WriteContract (the targetAddress) (epochId rs) deadline
                                        (maxPriceOf (price rs)) (price rs + fee)] \<rparr>
                    in if writeContractReturns env
                       then st2\<lparr> localSpinState := confirming \<rparr>
                       else spinFailed st2)))"

text \<open>
  The way the \<open>try\<close> block of \<open>handleSpin\<close> throws before anything is recorded: no
  connected address and no connector, a rejected connection, or no account in the answer.
\<close>

definition connectionThrows :: "SpinEnv \<Rightarrow> bool" where
  "connectionThrows env =
     (\<not> truthy (address env) \<and>
      (\<not> primaryConnector env \<or>
       (case connectAsync env of
          None \<Rightarrow> True
        | Some accounts \<Rightarrow> (case accounts of [] \<Rightarrow> True | a # _ \<Rightarrow> a = []))))"

text \<open>
  \<open>handleSpin\<close> split at \<open>await connectAsync\<close>, the one place where it gives control
  back before the state tag has left \<open>idle\<close>. \<open>handleSpinStart\<close> runs a click up to there:
  it either returns (the guard, a connected address, or no connector) or is left awaiting
  the connection. \<open>handleSpinResume\<close> runs the rest on the state the page has when the
  connection settles, with the closure of the click. \<open>submitSpin\<close> is the part both share,
  from \<open>setLocalSpinState('pending')\<close> on.
\<close>

definition submitSpin :: "RigState \<Rightarrow> SpinEnv \<Rightarrow> address \<Rightarrow> Page \<Rightarrow> Page" where
  "submitSpin rs env targetAddress st =
     (let deadline = clock env div 1000 + DEADLINE_BUFFER_SECONDS;
          fee = (case entropyFee env of None \<Rightarrow> 0 | Some f \<Rightarrow> f);
          st2 = st\<lparr> localSpinState := pending,
                    preSpinBalanceRef := Some (unitBalance rs),
                    pendingEpochId := Some (epochId rs),
                    effects := effects st @
                      [WriteContract targetAddress (epochId rs) deadline
                         (maxPriceOf (price rs)) (price rs + fee)] \<rparr>
      in if writeContractReturns env
         then st2\<lparr> localSpinState := confirming \<rparr>
         else spinFailed st2)"

datatype SpinStart = Returned Page | Awaiting Page

definition pageOf :: "SpinStart \<Rightarrow> Page" where
  "pageOf r = (case r of Returned st \<Rightarrow> st | Awaiting st \<Rightarrow> st)"

definition handleSpinStart :: "SpinEnv \<Rightarrow> Page \<Rightarrow> SpinStart" where
  "handleSpinStart env st =
     (case rigState env of
        None \<Rightarrow> Returned st
      | Some rs \<Rightarrow>
          if localSpinState st \<noteq> idle then Returned st
          else if truthy (address env) then Returned (submitSpin rs env (the (address env)) st)
          else if \<not> primaryConnector env then Returned (spinFailed st)
          else Awaiting (st\<lparr> effects := effects st @ [ConnectAsync] \<rparr>))"

definition handleSpinResume :: "SpinEnv \<Rightarrow> Page \<Rightarrow> Page" where
  "handleSpinResume env st =
     (case rigState env of
        None \<Rightarrow> st
      | Some rs \<Rightarrow>
          (case connectAsync env of
             None \<Rightarrow> spinFailed st
           | Some accounts \<Rightarrow>
               (case accounts of
                  [] \<Rightarrow> spinFailed st
                | a # _ \<Rightarrow> if a = [] then spinFailed st else submitSpin rs env a st)))"

text \<open>
  \<open>isSpinDisabled\<close>, the \<open>disabled\<close> flag of the spin button: \<open>isWriting\<close> and
  \<open>isConfirming\<close> are the pending flags of the write hook and of the receipt hook,
  \<open>globalSpinning\<close> is the spinning flag of the global activity hook. The connection in
  progress is not among the disjuncts.
\<close>

definition isSpinDisabled :: "SpinEnv \<Rightarrow> bool \<Rightarrow> bool \<Rightarrow> bool \<Rightarrow> Page \<Rightarrow> bool" where
  "isSpinDisabled env isWriting isConfirming globalSpinning st =
     (case rigState env of
        None \<Rightarrow> True
      | Some rs \<Rightarrow>
          localSpinState st \<noteq> idle \<or> isWriting \<or> isConfirming \<or> globalSpinning
          \<or> ethBalance rs < price rs)"

text \<open>\<open>handleWinDetected\<close>: the single resolved transition.\<close>

definition handleWinDetected :: "Page \<Rightarrow> Page" where
  "handleWinDetected st =
     st\<lparr> vrfTimeoutRef := None, balancePollRef := None, localSpinState := idle,
         preSpinBalanceRef := None,
         effects := effects st @ [RefetchRigState, ResetWrite] \<rparr>"

datatype ReceiptStatus = success | reverted

text \<open>
  The receipt effect, run with the receipt the wait hook delivers (\<open>None\<close>: no receipt)
  at clock reading \<open>now\<close>. On success it arms the VRF timeout and the balance poll.
\<close>

definition receiptEffect :: "ReceiptStatus option \<Rightarrow> nat \<Rightarrow> Page \<Rightarrow> Page" where
  "receiptEffect receipt now st =
     (case receipt of
        None \<Rightarrow> st
      | Some success \<Rightarrow>
          st\<lparr> localSpinState := waiting_vrf,
              vrfTimeoutRef := Some (now + VRF_TIMEOUT_MS),
              balancePollRef := Some (now + BALANCE_POLL_INTERVAL_MS) \<rparr>
      | Some reverted \<Rightarrow>
          st\<lparr> localSpinState := idle, preSpinBalanceRef := None,
              effects := effects st @ [ResetWrite] \<rparr>)"

text \<open>The callback of the VRF timeout, and the timer itself at clock reading \<open>now\<close>.\<close>

definition vrfTimeoutCallback :: "Page \<Rightarrow> Page" where
  "vrfTimeoutCallback st =
     st\<lparr> vrfTimeoutRef := None, balancePollRef := None, localSpinState := idle,
         preSpinBalanceRef := None,
         effects := effects st @ [ResetWrite, RefetchRigState] \<rparr>"

definition vrfTimer :: "nat \<Rightarrow> Page \<Rightarrow> Page" where
  "vrfTimer now st =
     (case vrfTimeoutRef st of
        None \<Rightarrow> st
      | Some due \<Rightarrow> if due \<le> now then vrfTimeoutCallback st else st)"

text \<open>One tick of the balance poll interval: it only asks for a refetch.\<close>

definition balancePollTick :: "Page \<Rightarrow> Page" where
  "balancePollTick st =
     (case balancePollRef st of
        None \<Rightarrow> st
      | Some _ \<Rightarrow> st\<lparr> effects := effects st @ [RefetchRigState] \<rparr>)"

text \<open>The balance-delta effect, run with the rig snapshot of the current render.\<close>

definition balanceEffect :: "RigState option \<Rightarrow> Page \<Rightarrow> Page" where
  "balanceEffect rs st =
     (if localSpinState st \<noteq> waiting_vrf then st
      else
        (case rs of
           None \<Rightarrow> st
         | Some r \<Rightarrow>
             (case preSpinBalanceRef st of
                None \<Rightarrow> st
              | Some preBalance \<Rightarrow>
                  if unitBalance r > preBalance
                  then handleWinDetected
                         (st\<lparr> effects := effects st @
                                [ConsoleLog ''Win detected via balance change''] \<rparr>)
                  else st)))"

text \<open>
  The push-match watcher of the page: enabled only while waiting for the VRF with a
  connected address; the loop stops at the first log of the local user. \<open>ownLog\<close> is
  the comparison \<open>spinner?.toLowerCase() === address?.toLowerCase()\<close>.
\<close>

definition ownLog :: "address option \<Rightarrow> WinLog \<Rightarrow> bool" where
  "ownLog addr log = (Some (toLowerCase (w_spinner log)) = map_option toLowerCase addr)"

definition isOwnWin :: "address option \<Rightarrow> Page \<Rightarrow> WinLog \<Rightarrow> bool" where
  "isOwnWin addr st log = (ownLog addr log \<and> localSpinState st = waiting_vrf)"

fun winLoop :: "address option \<Rightarrow> Page \<Rightarrow> WinLog list \<Rightarrow> Page" where
  "winLoop addr st [] = st"
| "winLoop addr st (log # logs) =
     (if isOwnWin addr st log
      then handleWinDetected
             (st\<lparr> effects := effects st @ [ConsoleLog ''Win detected via event for current user''] \<rparr>)
      else winLoop addr st logs)"

definition watcherEnabled :: "address option \<Rightarrow> Page \<Rightarrow> bool" where
  "watcherEnabled addr st = (localSpinState st = waiting_vrf \<and> truthy addr)"

definition pageOnLogs :: "address option \<Rightarrow> WinLog list \<Rightarrow> Page \<Rightarrow> Page" where
  "pageOnLogs addr logs st = (if watcherEnabled addr st then winLoop addr st logs else st)"

text \<open>
  The events the page reacts to while an action is in flight, and a run of the page over
  a list of them: pushed win logs (with the address of the render), a refreshed rig
  snapshot, a tick of the balance poll, a click on the spin button, and the passing of
  time up to a clock reading.
\<close>

datatype PageEvent =
    LogsPushed "address option" "WinLog list"
  | RigRefreshed "RigState option"
  | PollTicked
  | Clicked SpinEnv
  | TimePassed nat

fun pageStep :: "PageEvent \<Rightarrow> Page \<Rightarrow> Page" where
  "pageStep (LogsPushed addr logs) st = pageOnLogs addr logs st"
| "pageStep (RigRefreshed rs) st = balanceEffect rs st"
| "pageStep PollTicked st = balancePollTick st"
| "pageStep (Clicked env) st = handleSpin env st"
| "pageStep (TimePassed now) st = vrfTimer now st"

definition runPage :: "PageEvent list \<Rightarrow> Page \<Rightarrow> Page" where
  "runPage evs st = foldl (\<lambda>s e. pageStep e s) st evs"

text \<open>
  An event on which no detector fires in state \<open>st\<close>: no pushed win is the local user's,
  the refreshed balance does not exceed the snapshot, and the clock has not reached the
  due time of the VRF timeout.
\<close>

fun quietEvent :: "Page \<Rightarrow> PageEvent \<Rightarrow> bool" where
  "quietEvent st (LogsPushed addr logs) = (\<forall>l \<in> set logs. \<not> ownLog addr l)"
| "quietEvent st (RigRefreshed rs) =
     (case rs of
        None \<Rightarrow> True
      | Some r \<Rightarrow> (case preSpinBalanceRef st of None \<Rightarrow> True | Some b \<Rightarrow> unitBalance r \<le> b))"
| "quietEvent st PollTicked = True"
| "quietEvent st (Clicked env) = True"
| "quietEvent st (TimePassed now) =
     (case vrfTimeoutRef st of None \<Rightarrow> True | Some due \<Rightarrow> now < due)"

section \<open>The global activity hooks\<close>

text \<open>
  The repository holds two versions of \<open>useGlobalSpin\<close>. The polling hook (the third
  file stored in \<open>components/donut-icon.tsx\<close>) keeps a block cursor and the id of the
  last win it processed, and feeds every log through \<open>processSpinEvent\<close> and
  \<open>processWinEvent\<close>. The watching hook
  (\<open>hooks/use-global-spin.ts\<close>) fetches the most recent win once on mount and handles
  pushed logs in the \<open>onLogs\<close> callbacks of two contract event watchers. Both keep the
  same four state fields and the same two timer refs.

  The fields \<open>amountFormatted\<close> and \<open>usdValue\<close> of a win are floating-point renderings
  of \<open>amount\<close> for display and are left out. The emoji of a symbol is kept as its code
  point name.

  \<open>fetchUserByAddress\<close> never throws; it answers with the user, if it finds one, after
  some time. The lookup of the model returns both: the answer and the time it took. A
  handler that goes on after \<open>await fetchUserByAddress\<close> does so at the clock reading of
  its start plus that time.
\<close>

datatype Tier = small | medium | big | mega | jackpot

record SlotSymbol =
  emoji :: string
  name :: string
  oddsBps :: nat
  payout :: string
  tier :: Tier

definition SLOT_SYMBOLS :: "SlotSymbol list" where
  "SLOT_SYMBOLS =
     [ \<lparr> emoji = ''U+1F352'', name = ''Cherry'', oddsBps = 100, payout = ''1%'', tier = small \<rparr>,
       \<lparr> emoji = ''U+1F34B'', name = ''Lemon'', oddsBps = 200, payout = ''2%'', tier = small \<rparr>,
       \<lparr> emoji = ''U+1F4CA'', name = ''Bar'', oddsBps = 500, payout = ''5%'', tier = medium \<rparr>,
       \<lparr> emoji = ''U+1F514'', name = ''Bell'', oddsBps = 1000, payout = ''10%'', tier = big \<rparr>,
       \<lparr> emoji = ''U+0037 U+FE0F U+20E3'', name = ''Seven'', oddsBps = 2500, payout = ''25%'',
         tier = mega \<rparr>,
       \<lparr> emoji = ''U+1F48E'', name = ''Diamond'', oddsBps = 5000, payout = ''50%'',
         tier = jackpot \<rparr> ]"

definition SPIN_TIMEOUT_MS :: nat where
  "SPIN_TIMEOUT_MS = 120000"

definition WIN_DISPLAY_MS :: nat where
  "WIN_DISPLAY_MS = 10000"

text \<open>
  \<open>Number(oddsPercent)\<close> on a non-negative \<open>bigint\<close>: the value itself below \<open>2^53\<close>,
  and above it the nearest value with 53 significant bits, ties to the even one. The
  argument is a \<open>uint256\<close> of a log, far below the range where the conversion gives
  infinity.
\<close>

function bitLength :: "nat \<Rightarrow> nat" where
  "bitLength n = (if n = 0 then 0 else Suc (bitLength (n div 2)))"
  by pat_completeness auto
termination
  by (relation "measure (\<lambda>n. n)") auto

definition Number :: "nat \<Rightarrow> nat" where
  "Number n =
     (if n < 2 ^ 53 then n
      else
        (let e = bitLength n - 53;
             q = n div 2 ^ e;
             r = n mod 2 ^ e;
             half = 2 ^ (e - 1)
         in (if r > half \<or> (r = half \<and> odd q) then q + 1 else q) * 2 ^ e))"

definition getSymbolFromOdds :: "nat \<Rightarrow> SlotSymbol" where
  "getSymbolFromOdds odds =
     (case find (\<lambda>s. oddsBps s = odds) SLOT_SYMBOLS of
        Some s \<Rightarrow> s
      | None \<Rightarrow> SLOT_SYMBOLS ! 0)"

record UserInfo =
  username :: "string option"
  displayName :: "string option"
  pfpUrl :: "string option"

record GlobalSpinState =
  spin_id :: string
  spin_spinner :: address
  spin_epochId :: nat
  spin_timestamp :: nat
  spin_user :: "UserInfo option"

record GlobalWinState =
  win_id :: string
  win_spinner :: address
  win_epochId :: nat
  win_oddsBps :: nat
  win_amount :: nat
  win_timestamp :: nat
  win_user :: "UserInfo option"
  win_symbol :: SlotSymbol

text \<open>\<open>bigint.toString()\<close> of a non-negative value: its decimal digits.\<close>

definition digitChar :: "nat \<Rightarrow> char" where
  "digitChar d = ''0123456789'' ! d"

function toString :: "nat \<Rightarrow> string" where
  "toString n = (if n < 10 then [digitChar n] else toString (n div 10) @ [digitChar (n mod 10)])"
  by pat_completeness auto
termination
  by (relation "measure (\<lambda>n. n)") auto

definition spinIdOf :: "address \<Rightarrow> nat \<Rightarrow> string" where
  "spinIdOf spinner epoch = ''spin-'' @ spinner @ ''-'' @ toString epoch"

definition winIdOf :: "address \<Rightarrow> nat \<Rightarrow> string \<Rightarrow> string" where
  "winIdOf spinner epoch txHash = ''win-'' @ spinner @ ''-'' @ toString epoch @ ''-'' @ txHash"

text \<open>
  The state both hooks share. \<open>spinTimeoutRef\<close> holds the due time of the armed liveness
  timeout together with the spin id its callback closes over.
\<close>

record GlobalSpin =
  activeSpin :: "GlobalSpinState option"
  lastWin :: "GlobalWinState option"
  isGlobalSpinning :: bool
  showWinResult :: bool
  spinTimeoutRef :: "(nat \<times> string) option"
  winDisplayRef :: "nat option"
  consoleErrors :: "string list"

record PollingHook = GlobalSpin +
  lastProcessedBlockRef :: "int option"
  lastWinIdRef :: "string option"

record WatchingHook = GlobalSpin +
  hasFetchedInitial :: bool

definition initialPolling :: PollingHook where
  "initialPolling = \<lparr> activeSpin = None, lastWin = None, isGlobalSpinning = False,
     showWinResult = False, spinTimeoutRef = None, winDisplayRef = None, consoleErrors = [],
     lastProcessedBlockRef = None, lastWinIdRef = None \<rparr>"

definition initialWatching :: WatchingHook where
  "initialWatching = \<lparr> activeSpin = None, lastWin = None, isGlobalSpinning = False,
     showWinResult = False, spinTimeoutRef = None, winDisplayRef = None, consoleErrors = [],
     hasFetchedInitial = False \<rparr>"

text \<open>The win object built from the arguments of a log at clock reading \<open>now\<close>.\<close>

definition newWinOf :: "address \<Rightarrow> nat \<Rightarrow> nat \<Rightarrow> nat \<Rightarrow> string \<Rightarrow> nat \<Rightarrow> GlobalWinState" where
  "newWinOf spinner epoch oddsPercent amount txHash now =
     \<lparr> win_id = winIdOf spinner epoch txHash, win_spinner = spinner, win_epochId = epoch,
       win_oddsBps = Number oddsPercent, win_amount = amount, win_timestamp = now,
       win_user = None, win_symbol = getSymbolFromOdds (Number oddsPercent) \<rparr>"

definition newSpinOf :: "address \<Rightarrow> nat \<Rightarrow> nat \<Rightarrow> GlobalSpinState" where
  "newSpinOf spinner epoch now =
     \<lparr> spin_id = spinIdOf spinner epoch, spin_spinner = spinner, spin_epochId = epoch,
       spin_timestamp = now, spin_user = None \<rparr>"

text \<open>
  The functional updates \<open>prev => prev?.id === id ? {...prev, user} : prev\<close>, applied only
  when the lookup returned a user.
\<close>

definition patchWinUser :: "string \<Rightarrow> UserInfo option \<Rightarrow> GlobalWinState option \<Rightarrow> GlobalWinState option" where
  "patchWinUser wid user prev =
     (case user of
        None \<Rightarrow> prev
      | Some u \<Rightarrow>
          (case prev of
             None \<Rightarrow> None
           | Some w \<Rightarrow> if win_id w = wid then Some (w\<lparr> win_user := Some u \<rparr>) else Some w))"

definition patchSpinUser :: "string \<Rightarrow> UserInfo option \<Rightarrow> GlobalSpinState option \<Rightarrow> GlobalSpinState option" where
  "patchSpinUser sid user prev =
     (case user of
        None \<Rightarrow> prev
      | Some u \<Rightarrow>
          (case prev of
             None \<Rightarrow> None
           | Some s \<Rightarrow> if spin_id s = sid then Some (s\<lparr> spin_user := Some u \<rparr>) else Some s))"

text \<open>
  Applying a spin: \<open>spinBegin\<close> is the part before the awaited identity lookup, at the
  clock reading \<open>now\<close>; \<open>spinResume\<close> is the part after it, at the clock reading
  \<open>resumed\<close>, on the state the hook has by then: it patches the user in, clears the old
  liveness timeout and arms the new one. The code is the same in \<open>processSpinEvent\<close> of
  the polling hook and in the body of the spin watcher's loop. \<open>processSpinEvent\<close> is a
  run of the handler during whose lookup nothing else touches the state.
\<close>

definition spinBegin :: "address \<Rightarrow> nat \<Rightarrow> nat \<Rightarrow> 'a GlobalSpin_scheme \<Rightarrow> 'a GlobalSpin_scheme" where
  "spinBegin spinner epoch now st =
     st\<lparr> activeSpin := Some (newSpinOf spinner epoch now), isGlobalSpinning := True,
         showWinResult := False \<rparr>"

definition spinResume :: "string \<Rightarrow> UserInfo option \<Rightarrow> nat \<Rightarrow> 'a GlobalSpin_scheme \<Rightarrow> 'a GlobalSpin_scheme" where
  "spinResume sid user resumed st =
     st\<lparr> activeSpin := patchSpinUser sid user (activeSpin st),
         spinTimeoutRef := Some (resumed + SPIN_TIMEOUT_MS, sid) \<rparr>"

definition processSpinEvent ::
  "(address \<Rightarrow> UserInfo option \<times> nat) \<Rightarrow> nat \<Rightarrow> address \<Rightarrow> nat \<Rightarrow> 'a GlobalSpin_scheme \<Rightarrow> 'a GlobalSpin_scheme" where
  "processSpinEvent fetchUserByAddress now spinner epoch st =
     spinResume (spinIdOf spinner epoch) (fst (fetchUserByAddress spinner))
       (now + snd (fetchUserByAddress spinner))
       (spinBegin spinner epoch now st)"

text \<open>
  The loop \<open>for (const log of logs) await processSpinEvent(..)\<close>: each run starts when
  the one before it has finished. The result is the clock reading at the end and the state.
\<close>

fun spinEvents ::
  "(address \<Rightarrow> UserInfo option \<times> nat) \<Rightarrow> nat \<Rightarrow> SpinLog list \<Rightarrow> 'a GlobalSpin_scheme
     \<Rightarrow> nat \<times> 'a GlobalSpin_scheme" where
  "spinEvents fetchUserByAddress now [] st = (now, st)"
| "spinEvents fetchUserByAddress now (log # logs) st =
     spinEvents fetchUserByAddress (now + snd (fetchUserByAddress (s_spinner log))) logs
       (processSpinEvent fetchUserByAddress now (s_spinner log) (s_epochId log) st)"



definition winDisplayCallback :: "'a GlobalSpin_scheme \<Rightarrow> 'a GlobalSpin_scheme" where
  "winDisplayCallback st = st\<lparr> showWinResult := False, winDisplayRef := None \<rparr>"

definition winDisplayTimer :: "nat \<Rightarrow> 'a GlobalSpin_scheme \<Rightarrow> 'a GlobalSpin_scheme" where
  "winDisplayTimer now st =
     (case winDisplayRef st of
        None \<Rightarrow> st
      | Some due \<Rightarrow> if due \<le> now then winDisplayCallback st else st)"

subsection \<open>The polling hook\<close>

text \<open>
  \<open>processWinEvent\<close>: a win whose id is the one in \<open>lastWinIdRef\<close> is skipped; everything
  but the user patch happens before the awaited lookup.
\<close>

definition processWinEvent ::
  "(address \<Rightarrow> UserInfo option \<times> nat) \<Rightarrow> nat \<Rightarrow> bool \<Rightarrow> WinLog \<Rightarrow> PollingHook \<Rightarrow> PollingHook" where
  "processWinEvent fetchUserByAddress now isNew log st =
     (let winId = winIdOf (w_spinner log) (w_epochId log) (w_transactionHash log)
      in if lastWinIdRef st = Some winId then st
         else
           (let st1 = st\<lparr> lastWinIdRef := Some winId, spinTimeoutRef := None,
                          activeSpin := None, isGlobalSpinning := False,
                          lastWin := Some (newWinOf (w_spinner log) (w_epochId log)
                                             (w_oddsPercent log) (w_amount log)
                                             (w_transactionHash log) now) \<rparr>;
                st2 = (if isNew
                       then st1\<lparr> showWinResult := True,
                                 winDisplayRef := Some (now + WIN_DISPLAY_MS) \<rparr>
                       else st1)
            in st2\<lparr> lastWin := patchWinUser winId (fst (fetchUserByAddress (w_spinner log)))
                                  (lastWin st2) \<rparr>))"

text \<open>
  The loop over the win logs of a poll: a win that is skipped returns before the lookup
  and takes no time.
\<close>

fun winEvents ::
  "(address \<Rightarrow> UserInfo option \<times> nat) \<Rightarrow> nat \<Rightarrow> bool \<Rightarrow> WinLog list \<Rightarrow> PollingHook
     \<Rightarrow> nat \<times> PollingHook" where
  "winEvents fetchUserByAddress now isNew [] st = (now, st)"
| "winEvents fetchUserByAddress now isNew (log # logs) st =
     winEvents fetchUserByAddress
       (if lastWinIdRef st
             = Some (winIdOf (w_spinner log) (w_epochId log) (w_transactionHash log))
        then now else now + snd (fetchUserByAddress (w_spinner log)))
       isNew logs (processWinEvent fetchUserByAddress now isNew log st)"

text \<open>
  The public client as one poll sees it: each call answers or throws (\<open>None\<close>).
\<close>

record PublicClient =
  getBlockNumber :: "int option"
  getSpinLogs :: "int \<Rightarrow> int \<Rightarrow> SpinLog list option"
  getWinLogs :: "int \<Rightarrow> int \<Rightarrow> WinLog list option"

definition POLL_LOOKBACK :: int where
  "POLL_LOOKBACK = 3600"

definition MOUNT_LOOKBACK :: int where
  "MOUNT_LOOKBACK = 1800"

definition logPollError :: "PollingHook \<Rightarrow> PollingHook" where
  "logPollError st = st\<lparr> consoleErrors := consoleErrors st @ [''Failed to poll for events:''] \<rparr>"

definition clampBlock :: "int \<Rightarrow> int" where
  "clampBlock fromBlock = (if fromBlock > 0 then fromBlock else 0)"

text \<open>
  The first run of \<open>pollForEvents\<close> (no cursor yet), with the lookback as a parameter,
  and the later runs. \<open>pollForEvents\<close> is the source's function, with its lookback of
  3600 blocks. \<open>now\<close> is the clock reading at which the first handler of the poll starts;
  the time the chain fetches take is not counted.
\<close>

definition firstPoll ::
  "int \<Rightarrow> PublicClient \<Rightarrow> (address \<Rightarrow> UserInfo option \<times> nat) \<Rightarrow> nat \<Rightarrow> int \<Rightarrow> PollingHook \<Rightarrow> PollingHook" where
  "firstPoll lookback client fetchUserByAddress now currentBlock st =
     (let fromBlock = currentBlock - lookback
      in case getWinLogs client (clampBlock fromBlock) currentBlock of
           None \<Rightarrow> logPollError st
         | Some winLogs \<Rightarrow>
             (let st1 = (if length winLogs > 0
                         then processWinEvent fetchUserByAddress now False (last winLogs) st
                         else st)
              in st1\<lparr> lastProcessedBlockRef := Some currentBlock \<rparr>))"

definition laterPoll ::
  "PublicClient \<Rightarrow> (address \<Rightarrow> UserInfo option \<times> nat) \<Rightarrow> nat \<Rightarrow> int \<Rightarrow> int \<Rightarrow> PollingHook \<Rightarrow> PollingHook" where
  "laterPoll client fetchUserByAddress now currentBlock lastProcessed st =
     (let fromBlock = lastProcessed + 1
      in if fromBlock > currentBlock then st
         else
           (case getSpinLogs client fromBlock currentBlock of
              None \<Rightarrow> logPollError st
            | Some spinLogs \<Rightarrow>
                (case spinEvents fetchUserByAddress now spinLogs st of
                   (now1, st1) \<Rightarrow>
                     (case getWinLogs client fromBlock currentBlock of
                        None \<Rightarrow> logPollError st1
                      | Some winLogs \<Rightarrow>
                          (snd (winEvents fetchUserByAddress now1 True winLogs st1))
                            \<lparr> lastProcessedBlockRef := Some currentBlock \<rparr>))))"

definition pollWith ::
  "int \<Rightarrow> PublicClient \<Rightarrow> (address \<Rightarrow> UserInfo option \<times> nat) \<Rightarrow> nat \<Rightarrow> PollingHook \<Rightarrow> PollingHook" where
  "pollWith lookback client fetchUserByAddress now st =
     (case getBlockNumber client of
        None \<Rightarrow> logPollError st
      | Some currentBlock \<Rightarrow>
          (case lastProcessedBlockRef st of
             None \<Rightarrow> firstPoll lookback client fetchUserByAddress now currentBlock st
           | Some lastProcessed \<Rightarrow>
               laterPoll client fetchUserByAddress now currentBlock lastProcessed st))"

definition pollForEvents ::
  "PublicClient \<Rightarrow> (address \<Rightarrow> UserInfo option \<times> nat) \<Rightarrow> nat \<Rightarrow> PollingHook \<Rightarrow> PollingHook" where
  "pollForEvents = pollWith POLL_LOOKBACK"

subsection \<open>The watching hook\<close>

definition logFetchError :: "WatchingHook \<Rightarrow> WatchingHook" where
  "logFetchError st = st\<lparr> consoleErrors := consoleErrors st @ [''Failed to fetch recent win:''] \<rparr>"

text \<open>
  The mount effect with \<open>fetchRecentWin\<close>: the marker is set before the fetch starts.
  The client is \<open>None\<close> while \<open>usePublicClient\<close> has none to give.
\<close>

definition fetchRecentWin ::
  "PublicClient \<Rightarrow> (address \<Rightarrow> UserInfo option \<times> nat) \<Rightarrow> nat \<Rightarrow> WatchingHook \<Rightarrow> WatchingHook" where
  "fetchRecentWin client fetchUserByAddress now st =
     (case getBlockNumber client of
        None \<Rightarrow> logFetchError st
      | Some currentBlock \<Rightarrow>
          (let fromBlock = currentBlock - MOUNT_LOOKBACK
           in case getWinLogs client (clampBlock fromBlock) currentBlock of
                None \<Rightarrow> logFetchError st
              | Some logs \<Rightarrow>
                  if length logs > 0
                  then
                    (let latestLog = last logs;
                         winId = winIdOf (w_spinner latestLog) (w_epochId latestLog)
                                   (w_transactionHash latestLog);
                         st1 = st\<lparr> lastWin := Some (newWinOf (w_spinner latestLog)
                                        (w_epochId latestLog) (w_oddsPercent latestLog)
                                        (w_amount latestLog) (w_transactionHash latestLog) now) \<rparr>
                     in st1\<lparr> lastWin := patchWinUser winId
                                (fst (fetchUserByAddress (w_spinner latestLog))) (lastWin st1) \<rparr>)
                  else st))"

definition mountEffect ::
  "PublicClient option \<Rightarrow> (address \<Rightarrow> UserInfo option \<times> nat) \<Rightarrow> nat \<Rightarrow> WatchingHook \<Rightarrow> WatchingHook" where
  "mountEffect publicClient fetchUserByAddress now st =
     (case publicClient of
        None \<Rightarrow> st
      | Some client \<Rightarrow>
          if hasFetchedInitial st then st
          else fetchRecentWin client fetchUserByAddress now (st\<lparr> hasFetchedInitial := True \<rparr>))"

text \<open>
  The \<open>onLogs\<close> callback of the spin watcher: the loop over the pushed logs.
\<close>

definition spinOnLogs ::
  "(address \<Rightarrow> UserInfo option \<times> nat) \<Rightarrow> nat \<Rightarrow> SpinLog list \<Rightarrow> WatchingHook \<Rightarrow> WatchingHook" where
  "spinOnLogs fetchUserByAddress now logs st = snd (spinEvents fetchUserByAddress now logs st)"

text \<open>
  The body of the win watcher's loop. \<open>watchWinBegin\<close> is the part before the awaited
  lookup: it clears the liveness timeout and the active spin, stores the win and sets the
  highlight. \<open>watchWinResume\<close> is the part after it, at the clock reading \<open>resumed\<close>, on
  the state the hook has by then: it patches the user in, clears the old display timeout
  and arms the new one. \<open>watchWin\<close> is a run during whose lookup nothing else touches the
  state, and \<open>winOnLogs\<close> is the loop of the callback.
\<close>

definition watchWinBegin :: "nat \<Rightarrow> WinLog \<Rightarrow> WatchingHook \<Rightarrow> WatchingHook" where
  "watchWinBegin now log st =
     st\<lparr> spinTimeoutRef := None, activeSpin := None, isGlobalSpinning := False,
         lastWin := Some (newWinOf (w_spinner log) (w_epochId log) (w_oddsPercent log)
                            (w_amount log) (w_transactionHash log) now),
         showWinResult := True \<rparr>"

definition watchWinResume :: "string \<Rightarrow> UserInfo option \<Rightarrow> nat \<Rightarrow> WatchingHook \<Rightarrow> WatchingHook" where
  "watchWinResume winId user resumed st =
     st\<lparr> lastWin := patchWinUser winId user (lastWin st),
         winDisplayRef := Some (resumed + WIN_DISPLAY_MS) \<rparr>"

definition watchWin ::
  "(address \<Rightarrow> UserInfo option \<times> nat) \<Rightarrow> nat \<Rightarrow> WinLog \<Rightarrow> WatchingHook \<Rightarrow> WatchingHook" where
  "watchWin fetchUserByAddress now log st =
     watchWinResume (winIdOf (w_spinner log) (w_epochId log) (w_transactionHash log))
       (fst (fetchUserByAddress (w_spinner log)))
       (now + snd (fetchUserByAddress (w_spinner log)))
       (watchWinBegin now log st)"

fun winOnLogs ::
  "(address \<Rightarrow> UserInfo option \<times> nat) \<Rightarrow> nat \<Rightarrow> WinLog list \<Rightarrow> WatchingHook \<Rightarrow> WatchingHook" where
  "winOnLogs fetchUserByAddress now [] st = st"
| "winOnLogs fetchUserByAddress now (log # logs) st =
     winOnLogs fetchUserByAddress (now + snd (fetchUserByAddress (w_spinner log))) logs
       (watchWin fetchUserByAddress now log st)"

section \<open>The environment of the hooks and example inputs\<close>

text \<open>
  The chain behind the public client is not part of the repository (the client is viem's).
  For concrete runs it is a head block and the spin and win logs in block order: the
  client answers \<open>getBlockNumber\<close> with the head and \<open>getLogs\<close> with the logs whose
  block lies in the closed range asked for. A fault makes one of the three calls throw.
  The general statements below quantify over every \<open>PublicClient\<close>, not only these.
\<close>

record Chain =
  chainHead :: int
  chainSpins :: "SpinLog list"
  chainWins :: "WinLog list"

datatype Fault = FailBlockNumber | FailSpinLogs | FailWinLogs

definition clientOf :: "Chain \<Rightarrow> PublicClient" where
  "clientOf c =
     \<lparr> getBlockNumber = Some (chainHead c),
       getSpinLogs = (\<lambda>fromBlock toBlock.
          Some (filter (\<lambda>l. fromBlock \<le> s_blockNumber l \<and> s_blockNumber l \<le> toBlock) (chainSpins c))),
       getWinLogs = (\<lambda>fromBlock toBlock.
          Some (filter (\<lambda>l. fromBlock \<le> w_blockNumber l \<and> w_blockNumber l \<le> toBlock) (chainWins c))) \<rparr>"

definition faultyClientOf :: "Fault \<Rightarrow> Chain \<Rightarrow> PublicClient" where
  "faultyClientOf f c =
     (case f of
        FailBlockNumber \<Rightarrow> (clientOf c)\<lparr> getBlockNumber := None \<rparr>
      | FailSpinLogs \<Rightarrow> (clientOf c)\<lparr> getSpinLogs := (\<lambda>_ _. None) \<rparr>
      | FailWinLogs \<Rightarrow> (clientOf c)\<lparr> getWinLogs := (\<lambda>_ _. None) \<rparr>)"

text \<open>
  Two identity lookups: one that finds nobody and answers at once, and one that finds a
  user after 250 milliseconds.
\<close>

definition noUsers :: "address \<Rightarrow> UserInfo option \<times> nat" where
  "noUsers a = (None, 0)"

definition alice :: UserInfo where
  "alice = \<lparr> username = Some ''alice'', displayName = Some ''Alice'', pfpUrl = None \<rparr>"

definition slowUsers :: "address \<Rightarrow> UserInfo option \<times> nat" where
  "slowUsers a = (Some alice, 250)"

text \<open>
  The scenario of the spec: the head of the chain is block 1000 and the only win log is
  at block 950, with odds 5000 and an amount of \<open>500 * 10^18\<close>.
\<close>

definition scenarioWin :: WinLog where
  "scenarioWin = \<lparr> w_spinner = ''0xA11ce'', w_epochId = 7, w_oddsPercent = 5000,
     w_amount = 500 * 10 ^ 18, w_transactionHash = ''0xfeed'', w_blockNumber = 950 \<rparr>"

definition scenarioChain :: Chain where
  "scenarioChain = \<lparr> chainHead = 1000, chainSpins = [], chainWins = [scenarioWin] \<rparr>"

definition otherWin :: WinLog where
  "otherWin = \<lparr> w_spinner = ''0xB0b'', w_epochId = 8, w_oddsPercent = 100,
     w_amount = 3, w_transactionHash = ''0xbeef'', w_blockNumber = 1001 \<rparr>"


text \<open>
  A poll fails when a call it reaches throws: the block number, the win logs of the
  first poll, or the spin or win logs of a later poll that has new blocks to read.
\<close>

definition pollFails :: "int \<Rightarrow> PublicClient \<Rightarrow> PollingHook \<Rightarrow> bool" where
  "pollFails lookback client st =
     (case getBlockNumber client of
        None \<Rightarrow> True
      | Some currentBlock \<Rightarrow>
          (case lastProcessedBlockRef st of
             None \<Rightarrow> getWinLogs client (clampBlock (currentBlock - lookback)) currentBlock = None
           | Some lastProcessed \<Rightarrow>
               lastProcessed + 1 \<le> currentBlock \<and>
               (getSpinLogs client (lastProcessed + 1) currentBlock = None \<or>
                getWinLogs client (lastProcessed + 1) currentBlock = None)))"

text \<open>Two states of the polling hook that differ at most in the console output.\<close>

definition sameButLog :: "PollingHook \<Rightarrow> PollingHook \<Rightarrow> bool" where
  "sameButLog a b = (a\<lparr> consoleErrors := [] \<rparr> = b\<lparr> consoleErrors := [] \<rparr>)"

text \<open>
  Deliveries in the polling hook, each starting after the one before it has finished: a
  spin, the win of its epoch, the same spin again; then another win and the first win
  again. And a win pushed twice to the watcher.
\<close>

definition spinApplied :: PollingHook where
  "spinApplied = processSpinEvent slowUsers 10 ''0xA11ce'' 7 initialPolling"

definition winApplied :: PollingHook where
  "winApplied = processWinEvent slowUsers 300 True scenarioWin spinApplied"

definition spinRedelivered :: PollingHook where
  "spinRedelivered = processSpinEvent slowUsers 600 ''0xA11ce'' 7 winApplied"

definition otherWinApplied :: PollingHook where
  "otherWinApplied = processWinEvent slowUsers 600 True otherWin winApplied"

definition winAppliedAgain :: PollingHook where
  "winAppliedAgain = processWinEvent slowUsers 900 True scenarioWin otherWinApplied"

definition winPushed :: WatchingHook where
  "winPushed = winOnLogs slowUsers 300 [scenarioWin] initialWatching"

definition winPushedAgain :: WatchingHook where
  "winPushedAgain = winOnLogs slowUsers 2000 [scenarioWin] winPushed"

text \<open>The mount effect of the watching hook when the log fetch throws, and a second run.\<close>

definition mountFailed :: WatchingHook where
  "mountFailed =
     mountEffect (Some (faultyClientOf FailWinLogs scenarioChain)) noUsers 10 initialWatching"

definition mountAgain :: WatchingHook where
  "mountAgain = mountEffect (Some (clientOf scenarioChain)) noUsers 20 mountFailed"

text \<open>
  A first poll of the polling hook that fails at head 5000 and is tried again at head
  5001, with the only win log at block 1400, the first block of the first window.
\<close>

definition edgeWin :: WinLog where
  "edgeWin = \<lparr> w_spinner = ''0xB0b'', w_epochId = 3, w_oddsPercent = 500,
     w_amount = 9, w_transactionHash = ''0xd00d'', w_blockNumber = 1400 \<rparr>"

definition chainAt5000 :: Chain where
  "chainAt5000 = \<lparr> chainHead = 5000, chainSpins = [], chainWins = [edgeWin] \<rparr>"

definition chainAt5001 :: Chain where
  "chainAt5001 = \<lparr> chainHead = 5001, chainSpins = [], chainWins = [edgeWin] \<rparr>"

definition backfillFailed :: PollingHook where
  "backfillFailed =
     pollForEvents (faultyClientOf FailWinLogs chainAt5000) noUsers 10 initialPolling"

definition backfillRetried :: PollingHook where
  "backfillRetried = pollForEvents (clientOf chainAt5001) noUsers 2010 backfillFailed"

text \<open>
  A later poll of the polling hook that fails and is tried again: the hook has seeded its
  cursor at head 1000; at head 1002 there are a spin and a win at block 1001, the fetch of
  the win logs fails, and the next tick finds the same chain with a healthy client.
\<close>

definition seededPolling :: PollingHook where
  "seededPolling = pollForEvents (clientOf scenarioChain) noUsers 10 initialPolling"

definition scenarioSpin :: SpinLog where
  "scenarioSpin = \<lparr> s_sender = ''0xB0b'', s_spinner = ''0xB0b'', s_epochId = 8, s_price = 200,
     s_transactionHash = ''0xcafe'', s_blockNumber = 1001 \<rparr>"

definition chainAt1002 :: Chain where
  "chainAt1002 = \<lparr> chainHead = 1002, chainSpins = [scenarioSpin],
     chainWins = [scenarioWin, otherWin] \<rparr>"

definition laterFailed :: PollingHook where
  "laterFailed =
     pollForEvents (faultyClientOf FailWinLogs chainAt1002) noUsers 2010 seededPolling"

definition laterRetried :: PollingHook where
  "laterRetried = pollForEvents (clientOf chainAt1002) noUsers 4010 laterFailed"

definition exampleRig :: RigState where
  "exampleRig = \<lparr> ups = 1, unitPrice = 1, unitBalance = 40, ethBalance = 5000, wethBalance = 0,
     prizePool = 1000, pendingEmissions = 0, epochId = 7, price = 200 \<rparr>"

definition connectedEnv :: SpinEnv where
  "connectedEnv = \<lparr> rigState = Some exampleRig, address = Some ''0xA11ce'',
     primaryConnector = True, connectAsync = None, entropyFee = Some 3,
     writeContractReturns = True, clock = 5000 \<rparr>"

text \<open>
  A user whose wallet is not connected yet clicks twice before the connection settles;
  the connection then settles for the first click and for the second.
\<close>

definition connectingEnv :: SpinEnv where
  "connectingEnv = connectedEnv\<lparr> address := None, connectAsync := Some [''0xA11ce''] \<rparr>"

definition firstClick :: SpinStart where
  "firstClick = handleSpinStart connectingEnv initialPage"

definition secondClick :: SpinStart where
  "secondClick = handleSpinStart connectingEnv (pageOf firstClick)"

definition firstResumed :: Page where
  "firstResumed = handleSpinResume connectingEnv (pageOf secondClick)"

definition secondResumed :: Page where
  "secondResumed = handleSpinResume connectingEnv firstResumed"

definition noWalletEnv :: SpinEnv where
  "noWalletEnv = connectedEnv\<lparr> address := None, connectAsync := None \<rparr>"

definition confirmingPage :: Page where
  "confirmingPage = handleSpin connectedEnv initialPage"

definition waitingPage :: Page where
  "waitingPage = receiptEffect (Some success) 6000 confirmingPage"

section \<open>Properties of the local spin lifecycle\<close>

lemma confirmingPage_eval:
  "confirmingPage = \<lparr> localSpinState = confirming, pendingEpochId = Some 7,
     vrfTimeoutRef = None, balancePollRef = None, preSpinBalanceRef = Some 40,
     effects = [WriteContract ''0xA11ce'' 7 905 210 203] \<rparr>"
  by (simp add: confirmingPage_def handleSpin_def connectedEnv_def initialPage_def
      resolveTarget_def truthy_def exampleRig_def maxPriceOf_def DEADLINE_BUFFER_SECONDS_def)

lemma waitingPage_eval:
  "waitingPage = \<lparr> localSpinState = waiting_vrf, pendingEpochId = Some 7,
     vrfTimeoutRef = Some 126000, balancePollRef = Some 8000, preSpinBalanceRef = Some 40,
     effects = [WriteContract ''0xA11ce'' 7 905 210 203] \<rparr>"
  by (simp add: waitingPage_def confirmingPage_eval receiptEffect_def VRF_TIMEOUT_MS_def
      BALANCE_POLL_INTERVAL_MS_def)

lemma handleSpin_guard:
  "rigState env = None \<or> localSpinState st \<noteq> idle \<Longrightarrow> handleSpin env st = st"
  by (auto simp: handleSpin_def split: option.splits)

lemma handleSpin_phases:
  "handleSpin env st =
     (case handleSpinStart env st of
        Returned st1 \<Rightarrow> st1
      | Awaiting st1 \<Rightarrow> handleSpinResume env st1)"
proof (cases "rigState env")
  case None
  then show ?thesis
    by (simp add: handleSpin_def handleSpinStart_def)
next
  case (Some rs)
  show ?thesis
  proof (cases "localSpinState st = idle")
    case False
    then show ?thesis
      using Some by (simp add: handleSpin_def handleSpinStart_def)
  next
    case True
    show ?thesis
    proof (cases "truthy (address env)")
      case connected: True
      then show ?thesis
        using Some True
        by (simp add: handleSpin_def handleSpinStart_def resolveTarget_def submitSpin_def)
    next
      case False
      then show ?thesis
        using Some True
        by (auto simp: handleSpin_def handleSpinStart_def handleSpinResume_def resolveTarget_def
            submitSpin_def truthy_def spinFailed_def split: option.splits list.splits)
    qed
  qed
qed

text \<open>
  C10. The guard itself holds: called while the state is not idle, or before the rig
  snapshot has loaded, the handler returns the state it was given, having connected and
  submitted nothing. It does not keep the page to one action in flight. With no wallet
  connected, nothing being written or confirmed and no global spin shown, the button is
  enabled; the first click passes the guard and waits for the connection with the state
  tag still \<open>idle\<close> and the button still enabled; a second click in that window passes
  the guard too and starts a second connection; when the connections settle, each of the
  two runs submits a transaction.
\<close>

theorem double_click_submits_twice:
  "(rigState env = None \<or> localSpinState st \<noteq> idle \<longrightarrow>
      handleSpinStart env st = Returned st \<and> handleSpin env st = st)
   \<and> \<not> isSpinDisabled connectingEnv False False False initialPage
   \<and> firstClick = Awaiting (initialPage\<lparr> effects := [ConnectAsync] \<rparr>)
   \<and> localSpinState (pageOf firstClick) = idle
   \<and> \<not> isSpinDisabled connectingEnv False False False (pageOf firstClick)
   \<and> secondClick = Awaiting (initialPage\<lparr> effects := [ConnectAsync, ConnectAsync] \<rparr>)
   \<and> localSpinState firstResumed = confirming
   \<and> effects firstResumed =
        [ConnectAsync, ConnectAsync, WriteContract ''0xA11ce'' 7 905 210 203]
   \<and> localSpinState secondResumed = confirming
   \<and> effects secondResumed =
        [ConnectAsync, ConnectAsync, WriteContract ''0xA11ce'' 7 905 210 203,
         WriteContract ''0xA11ce'' 7 905 210 203]"
  (is "?G \<and> ?S")
proof -
  have g: "?G"
    using handleSpin_guard [of env st]
    by (auto simp: handleSpinStart_def split: option.splits)
  have env: "rigState connectingEnv = Some exampleRig" "address connectingEnv = None"
    "primaryConnector connectingEnv" "connectAsync connectingEnv = Some [''0xA11ce'']"
    "entropyFee connectingEnv = Some 3" "writeContractReturns connectingEnv"
    "clock connectingEnv = 5000"
    by (simp_all add: connectingEnv_def connectedEnv_def)
  have c1: "firstClick = Awaiting (initialPage\<lparr> effects := [ConnectAsync] \<rparr>)"
    by (simp add: firstClick_def handleSpinStart_def env truthy_def initialPage_def)
  have c2: "secondClick = Awaiting (initialPage\<lparr> effects := [ConnectAsync, ConnectAsync] \<rparr>)"
    by (simp add: secondClick_def c1 pageOf_def handleSpinStart_def env truthy_def
        initialPage_def)
  have b: "\<not> isSpinDisabled connectingEnv False False False initialPage"
    "\<not> isSpinDisabled connectingEnv False False False (pageOf firstClick)"
    by (simp_all add: isSpinDisabled_def env c1 pageOf_def initialPage_def exampleRig_def)
  have r1: "firstResumed = \<lparr> localSpinState = confirming, pendingEpochId = Some 7,
      vrfTimeoutRef = None, balancePollRef = None, preSpinBalanceRef = Some 40,
      effects = [ConnectAsync, ConnectAsync, WriteContract ''0xA11ce'' 7 905 210 203] \<rparr>"
    by (simp add: firstResumed_def c2 pageOf_def handleSpinResume_def env submitSpin_def
        initialPage_def exampleRig_def maxPriceOf_def DEADLINE_BUFFER_SECONDS_def)
  have r2: "secondResumed = \<lparr> localSpinState = confirming, pendingEpochId = Some 7,
      vrfTimeoutRef = None, balancePollRef = None, preSpinBalanceRef = Some 40,
      effects = [ConnectAsync, ConnectAsync, WriteContract ''0xA11ce'' 7 905 210 203,
                 WriteContract ''0xA11ce'' 7 905 210 203] \<rparr>"
    by (simp add: secondResumed_def r1 handleSpinResume_def env submitSpin_def
        exampleRig_def maxPriceOf_def DEADLINE_BUFFER_SECONDS_def)
  have s: "?S"
    using b by (simp add: c1 c2 r1 r2 pageOf_def initialPage_def)
  show ?thesis
    using g s by blast
qed

theorem double_click_submits_twice_witness:
  "localSpinState confirmingPage \<noteq> idle
   \<and> handleSpinStart connectedEnv confirmingPage = Returned confirmingPage
   \<and> handleSpin connectedEnv confirmingPage = confirmingPage
   \<and> effects confirmingPage = [WriteContract ''0xA11ce'' 7 905 210 203]
   \<and> isSpinDisabled connectedEnv False False False confirmingPage
   \<and> \<not> isSpinDisabled connectingEnv False False False (pageOf firstClick)
   \<and> length (effects secondResumed) = 4"
proof -
  have h: "localSpinState confirmingPage \<noteq> idle"
    "effects confirmingPage = [WriteContract ''0xA11ce'' 7 905 210 203]"
    by (simp_all add: confirmingPage_eval)
  have d: "isSpinDisabled connectedEnv False False False confirmingPage"
    by (simp add: isSpinDisabled_def connectedEnv_def confirmingPage_eval)
  note t = double_click_submits_twice [where env = connectedEnv and st = confirmingPage]
  have g: "handleSpinStart connectedEnv confirmingPage = Returned confirmingPage
      \<and> handleSpin connectedEnv confirmingPage = confirmingPage"
    using t h(1) by blast
  have e: "\<not> isSpinDisabled connectingEnv False False False (pageOf firstClick)"
    using t by blast
  have n: "length (effects secondResumed) = 4"
    using t by simp
  show ?thesis
    using h d g e n by blast
qed

lemma winLoop_quiet:
  "\<forall>l \<in> set logs. \<not> ownLog addr l \<Longrightarrow> winLoop addr st logs = st"
  by (induction logs) (auto simp: isOwnWin_def)

lemma winLoop_fires:
  "\<exists>l \<in> set logs. ownLog addr l \<Longrightarrow> localSpinState st = waiting_vrf \<Longrightarrow>
   winLoop addr st logs =
     handleWinDetected
       (st\<lparr> effects := effects st @ [ConsoleLog ''Win detected via event for current user''] \<rparr>)"
  by (induction logs) (auto simp: isOwnWin_def)

lemma pageOnLogs_not_waiting:
  "localSpinState st \<noteq> waiting_vrf \<Longrightarrow> pageOnLogs addr logs st = st"
  by (simp add: pageOnLogs_def watcherEnabled_def)

lemma balanceEffect_not_waiting:
  "localSpinState st \<noteq> waiting_vrf \<Longrightarrow> balanceEffect rs st = st"
  by (simp add: balanceEffect_def split: option.splits)

text \<open>
  C4. From the waiting state, with a pushed win of the local user and a refreshed balance
  above the snapshot, either order of the two detectors ends in the same state: the first
  one runs the resolved transition once (state idle, VRF timeout and balance poll
  cancelled, snapshot cleared, one refetch and one reset of the write), and the second one
  returns the state unchanged, so it arms nothing.
\<close>

theorem detector_race_single_resolution:
  assumes "localSpinState st = waiting_vrf"
    and "preSpinBalanceRef st = Some b"
    and "truthy addr"
    and "\<exists>l \<in> set logs. ownLog addr l"
    and "unitBalance r > b"
  shows "localSpinState (pageOnLogs addr logs st) = idle
       \<and> vrfTimeoutRef (pageOnLogs addr logs st) = None
       \<and> balancePollRef (pageOnLogs addr logs st) = None
       \<and> preSpinBalanceRef (pageOnLogs addr logs st) = None
       \<and> effects (pageOnLogs addr logs st) =
           effects st @ [ConsoleLog ''Win detected via event for current user'',
                         RefetchRigState, ResetWrite]
       \<and> balanceEffect (Some r) (pageOnLogs addr logs st) = pageOnLogs addr logs st
       \<and> localSpinState (balanceEffect (Some r) st) = idle
       \<and> vrfTimeoutRef (balanceEffect (Some r) st) = None
       \<and> balancePollRef (balanceEffect (Some r) st) = None
       \<and> preSpinBalanceRef (balanceEffect (Some r) st) = None
       \<and> effects (balanceEffect (Some r) st) =
           effects st @ [ConsoleLog ''Win detected via balance change'',
                         RefetchRigState, ResetWrite]
       \<and> pageOnLogs addr logs (balanceEffect (Some r) st) = balanceEffect (Some r) st"
proof -
  have push: "pageOnLogs addr logs st =
      handleWinDetected
        (st\<lparr> effects := effects st @ [ConsoleLog ''Win detected via event for current user''] \<rparr>)"
    using assms(1,3,4) by (simp add: pageOnLogs_def watcherEnabled_def winLoop_fires)
  have bal: "balanceEffect (Some r) st =
      handleWinDetected
        (st\<lparr> effects := effects st @ [ConsoleLog ''Win detected via balance change''] \<rparr>)"
    using assms(1,2,5) by (simp add: balanceEffect_def)
  have idle1: "localSpinState (pageOnLogs addr logs st) \<noteq> waiting_vrf"
    by (simp add: push handleWinDetected_def)
  have idle2: "localSpinState (balanceEffect (Some r) st) \<noteq> waiting_vrf"
    by (simp add: bal handleWinDetected_def)
  show ?thesis
    using balanceEffect_not_waiting [OF idle1] pageOnLogs_not_waiting [OF idle2]
    by (simp add: push bal handleWinDetected_def)
qed

theorem detector_race_single_resolution_witness:
  "localSpinState waitingPage = waiting_vrf
   \<and> preSpinBalanceRef waitingPage = Some 40
   \<and> truthy (Some ''0xa11CE'')
   \<and> (\<exists>l \<in> set [otherWin, scenarioWin]. ownLog (Some ''0xa11CE'') l)
   \<and> unitBalance (exampleRig\<lparr> unitBalance := 41 \<rparr>) > 40
   \<and> balanceEffect (Some (exampleRig\<lparr> unitBalance := 41 \<rparr>))
        (pageOnLogs (Some ''0xa11CE'') [otherWin, scenarioWin] waitingPage)
      = pageOnLogs (Some ''0xa11CE'') [otherWin, scenarioWin] waitingPage
   \<and> pageOnLogs (Some ''0xa11CE'') [otherWin, scenarioWin]
        (balanceEffect (Some (exampleRig\<lparr> unitBalance := 41 \<rparr>)) waitingPage)
      = balanceEffect (Some (exampleRig\<lparr> unitBalance := 41 \<rparr>)) waitingPage
   \<and> localSpinState (pageOnLogs (Some ''0xa11CE'') [otherWin, scenarioWin] waitingPage) = idle"
proof -
  have own: "\<exists>l \<in> set [otherWin, scenarioWin]. ownLog (Some ''0xa11CE'') l"
    by (simp add: ownLog_def scenarioWin_def toLowerCase_def lowerChar_def)
  have h: "localSpinState waitingPage = waiting_vrf" "preSpinBalanceRef waitingPage = Some 40"
    "truthy (Some ''0xa11CE'')" "unitBalance (exampleRig\<lparr> unitBalance := 41 \<rparr>) > 40"
    by (simp_all add: waitingPage_eval truthy_def)
  show ?thesis
    using detector_race_single_resolution [OF h(1) h(2) h(3) own h(4)] own h
    by simp
qed

lemma caught_paths_reset_to_idle:
  "(rigState env = Some rs \<and> localSpinState st = idle \<and> connectionThrows env \<longrightarrow>
      localSpinState (handleSpin env st) = idle
      \<and> last (effects (handleSpin env st)) = ResetWrite
      \<and> vrfTimeoutRef (handleSpin env st) = vrfTimeoutRef st
      \<and> balancePollRef (handleSpin env st) = balancePollRef st
      \<and> pendingEpochId (handleSpin env st) = pendingEpochId st
      \<and> preSpinBalanceRef (handleSpin env st) = preSpinBalanceRef st)
   \<and> localSpinState (receiptEffect (Some reverted) now st) = idle
   \<and> preSpinBalanceRef (receiptEffect (Some reverted) now st) = None
   \<and> effects (receiptEffect (Some reverted) now st) = effects st @ [ResetWrite]
   \<and> vrfTimeoutRef (receiptEffect (Some reverted) now st) = vrfTimeoutRef st
   \<and> balancePollRef (receiptEffect (Some reverted) now st) = balancePollRef st
   \<and> pendingEpochId (receiptEffect (Some reverted) now st) = pendingEpochId st"
proof -
  have conn: "localSpinState (handleSpin env st) = idle
      \<and> last (effects (handleSpin env st)) = ResetWrite
      \<and> vrfTimeoutRef (handleSpin env st) = vrfTimeoutRef st
      \<and> balancePollRef (handleSpin env st) = balancePollRef st
      \<and> pendingEpochId (handleSpin env st) = pendingEpochId st
      \<and> preSpinBalanceRef (handleSpin env st) = preSpinBalanceRef st"
    if "rigState env = Some rs" "localSpinState st = idle" "connectionThrows env"
    using that
    by (auto simp: handleSpin_def connectionThrows_def resolveTarget_def spinFailed_def
        truthy_def split: option.splits list.splits)
  show ?thesis
    using conn by (simp add: receiptEffect_def)
qed

lemma resolveTarget_ok:
  assumes "\<not> connectionThrows env"
  shows "\<exists>a st1. resolveTarget env st = Inr (Some a, st1) \<and> a \<noteq> []
           \<and> (st1 = st \<or> st1 = st\<lparr> effects := effects st @ [ConnectAsync] \<rparr>)"
proof (cases "truthy (address env)")
  case True
  then show ?thesis
    by (auto simp: resolveTarget_def truthy_def split: option.splits)
next
  case False
  then obtain a rest where "primaryConnector env" "connectAsync env = Some (a # rest)" "a \<noteq> []"
    using assms by (auto simp: connectionThrows_def split: option.splits list.splits)
  then show ?thesis
    using False by (simp add: resolveTarget_def)
qed

lemma handleSpin_ok:
  assumes "rigState env = Some rs"
    and "localSpinState st = idle"
    and "\<not> connectionThrows env"
    and "writeContractReturns env"
  shows "localSpinState (handleSpin env st) = confirming
      \<and> pendingEpochId (handleSpin env st) = Some (epochId rs)
      \<and> preSpinBalanceRef (handleSpin env st) = Some (unitBalance rs)
      \<and> vrfTimeoutRef (handleSpin env st) = vrfTimeoutRef st
      \<and> balancePollRef (handleSpin env st) = balancePollRef st"
proof -
  obtain a st1 where r: "resolveTarget env st = Inr (Some a, st1)" "a \<noteq> []"
    "st1 = st \<or> st1 = st\<lparr> effects := effects st @ [ConnectAsync] \<rparr>"
    using resolveTarget_ok [OF assms(3)] by blast
  show ?thesis
    using assms(1,2,4) r by (auto simp: handleSpin_def truthy_def Let_def)
qed

text \<open>
  C8. From idle, a submit that neither throws while connecting nor in the submission
  reaches \<open>confirming\<close>, and a successful receipt then reaches \<open>waiting_vrf\<close> with the
  pending epoch id set and the three detectors armed: the VRF timeout, the balance poll
  with the snapshot the balance-delta effect compares against, and the push-match watcher
  (enabled for a connected address). Pushed wins of which none is the local user's leave
  the state as it is; a pushed win of the local user resolves it.
\<close>

theorem submit_receipt_reaches_waiting:
  assumes "rigState env = Some rs"
    and "localSpinState st = idle"
    and "\<not> connectionThrows env"
    and "writeContractReturns env"
  shows "localSpinState (handleSpin env st) = confirming
       \<and> localSpinState (receiptEffect (Some success) now (handleSpin env st)) = waiting_vrf
       \<and> pendingEpochId (receiptEffect (Some success) now (handleSpin env st))
           = Some (epochId rs)
       \<and> vrfTimeoutRef (receiptEffect (Some success) now (handleSpin env st))
           = Some (now + 120000)
       \<and> balancePollRef (receiptEffect (Some success) now (handleSpin env st))
           = Some (now + 2000)
       \<and> preSpinBalanceRef (receiptEffect (Some success) now (handleSpin env st))
           = Some (unitBalance rs)
       \<and> (truthy addr \<longrightarrow>
            watcherEnabled addr (receiptEffect (Some success) now (handleSpin env st)))
       \<and> ((\<forall>l \<in> set logs. \<not> ownLog addr l) \<longrightarrow>
            pageOnLogs addr logs (receiptEffect (Some success) now (handleSpin env st))
              = receiptEffect (Some success) now (handleSpin env st))
       \<and> (truthy addr \<and> (\<exists>l \<in> set logs. ownLog addr l) \<longrightarrow>
            localSpinState
              (pageOnLogs addr logs (receiptEffect (Some success) now (handleSpin env st)))
              = idle)"
proof -
  let ?c = "handleSpin env st"
  let ?w = "receiptEffect (Some success) now ?c"
  have c: "localSpinState ?c = confirming \<and> pendingEpochId ?c = Some (epochId rs)
      \<and> preSpinBalanceRef ?c = Some (unitBalance rs)"
    using handleSpin_ok [OF assms] by simp
  have w: "localSpinState ?w = waiting_vrf" "pendingEpochId ?w = Some (epochId rs)"
    "vrfTimeoutRef ?w = Some (now + 120000)" "balancePollRef ?w = Some (now + 2000)"
    "preSpinBalanceRef ?w = Some (unitBalance rs)"
    using c by (simp_all add: receiptEffect_def VRF_TIMEOUT_MS_def BALANCE_POLL_INTERVAL_MS_def)
  have quiet: "pageOnLogs addr logs ?w = ?w" if "\<forall>l \<in> set logs. \<not> ownLog addr l"
    using that by (simp add: pageOnLogs_def winLoop_quiet)
  have fires: "localSpinState (pageOnLogs addr logs ?w) = idle"
    if "truthy addr" "\<exists>l \<in> set logs. ownLog addr l"
    using that w(1) by (simp add: pageOnLogs_def watcherEnabled_def winLoop_fires handleWinDetected_def)
  show ?thesis
    using c w quiet fires by (simp add: watcherEnabled_def)
qed

theorem submit_receipt_reaches_waiting_witness:
  "rigState connectedEnv = Some exampleRig \<and> localSpinState initialPage = idle
   \<and> \<not> connectionThrows connectedEnv \<and> writeContractReturns connectedEnv
   \<and> truthy (Some ''0xA11ce'')
   \<and> \<not> ownLog (Some ''0xA11ce'') otherWin
   \<and> (\<exists>l \<in> set [otherWin, scenarioWin]. ownLog (Some ''0xA11ce'') l)
   \<and> localSpinState waitingPage = waiting_vrf
   \<and> pendingEpochId waitingPage = Some 7
   \<and> vrfTimeoutRef waitingPage = Some 126000
   \<and> watcherEnabled (Some ''0xA11ce'') waitingPage
   \<and> pageOnLogs (Some ''0xA11ce'') [otherWin] waitingPage = waitingPage
   \<and> localSpinState (pageOnLogs (Some ''0xA11ce'') [otherWin, scenarioWin] waitingPage) = idle"
proof -
  have h: "rigState connectedEnv = Some exampleRig" "localSpinState initialPage = idle"
    "\<not> connectionThrows connectedEnv" "writeContractReturns connectedEnv"
    by (simp_all add: connectedEnv_def initialPage_def connectionThrows_def truthy_def)
  have t: "truthy (Some ''0xA11ce'')"
    by (simp add: truthy_def)
  have q: "\<forall>l \<in> set [otherWin]. \<not> ownLog (Some ''0xA11ce'') l"
    by (simp add: ownLog_def otherWin_def toLowerCase_def lowerChar_def)
  have f: "\<exists>l \<in> set [otherWin, scenarioWin]. ownLog (Some ''0xA11ce'') l"
    by (simp add: ownLog_def scenarioWin_def toLowerCase_def lowerChar_def)
  have a: "watcherEnabled (Some ''0xA11ce'') waitingPage
      \<and> pageOnLogs (Some ''0xA11ce'') [otherWin] waitingPage = waitingPage"
    using submit_receipt_reaches_waiting [OF h, where addr = "Some ''0xA11ce''" and now = 6000 and logs = "[otherWin]"] t q
    unfolding waitingPage_def confirmingPage_def by blast
  have b: "localSpinState (pageOnLogs (Some ''0xA11ce'') [otherWin, scenarioWin] waitingPage) = idle"
    using submit_receipt_reaches_waiting [OF h, where addr = "Some ''0xA11ce''" and now = 6000
        and logs = "[otherWin, scenarioWin]"] t f
    unfolding waitingPage_def confirmingPage_def by blast
  show ?thesis
    using h t q f a b by (simp add: waitingPage_eval)
qed

lemma handleSpin_busy: "localSpinState st \<noteq> idle \<Longrightarrow> handleSpin env st = st"
  by (simp add: handleSpin_def split: option.splits)

lemma pageOnLogs_quiet:
  "\<forall>l \<in> set logs. \<not> ownLog addr l \<Longrightarrow> pageOnLogs addr logs s = s"
  by (simp add: pageOnLogs_def winLoop_quiet)

lemma balanceEffect_quiet:
  "quietEvent s (RigRefreshed rs) \<Longrightarrow> balanceEffect rs s = s"
  by (simp add: balanceEffect_def split: option.splits)

lemma vrfTimer_quiet:
  "quietEvent s (TimePassed now) \<Longrightarrow> vrfTimer now s = s"
  by (simp add: vrfTimer_def split: option.splits)

lemma balancePollTick_fields:
  "localSpinState (balancePollTick s) = localSpinState s
   \<and> vrfTimeoutRef (balancePollTick s) = vrfTimeoutRef s
   \<and> preSpinBalanceRef (balancePollTick s) = preSpinBalanceRef s
   \<and> balancePollRef (balancePollTick s) = balancePollRef s
   \<and> pendingEpochId (balancePollTick s) = pendingEpochId s"
  by (simp add: balancePollTick_def split: option.splits)

lemma quiet_step_fields:
  assumes "localSpinState s = waiting_vrf" and "quietEvent s e"
  shows "localSpinState (pageStep e s) = waiting_vrf
       \<and> vrfTimeoutRef (pageStep e s) = vrfTimeoutRef s
       \<and> preSpinBalanceRef (pageStep e s) = preSpinBalanceRef s
       \<and> balancePollRef (pageStep e s) = balancePollRef s
       \<and> pendingEpochId (pageStep e s) = pendingEpochId s"
proof (cases e)
  case (LogsPushed addr logs)
  then have "pageStep e s = s"
    using assms(2) by (simp add: pageOnLogs_quiet)
  then show ?thesis
    using assms(1) by simp
next
  case (RigRefreshed rs)
  then have "pageStep e s = s"
    using assms(2) balanceEffect_quiet [of s rs] by simp
  then show ?thesis
    using assms(1) by simp
next
  case PollTicked
  then show ?thesis
    using assms(1) balancePollTick_fields [of s] by simp
next
  case (Clicked env)
  then have "pageStep e s = s"
    using assms(1) by (simp add: handleSpin_busy)
  then show ?thesis
    using assms(1) by simp
next
  case (TimePassed now)
  then have "pageStep e s = s"
    using assms(2) vrfTimer_quiet [of s now] by simp
  then show ?thesis
    using assms(1) by simp
qed

lemma quietEvent_fields:
  "preSpinBalanceRef s' = preSpinBalanceRef s \<Longrightarrow> vrfTimeoutRef s' = vrfTimeoutRef s \<Longrightarrow>
   quietEvent s' e = quietEvent s e"
  by (cases e) (simp_all split: option.splits)

lemma run_quiet_fields:
  "localSpinState s = waiting_vrf \<Longrightarrow> \<forall>e \<in> set evs. quietEvent s e \<Longrightarrow>
   localSpinState (runPage evs s) = waiting_vrf
   \<and> vrfTimeoutRef (runPage evs s) = vrfTimeoutRef s
   \<and> preSpinBalanceRef (runPage evs s) = preSpinBalanceRef s
   \<and> balancePollRef (runPage evs s) = balancePollRef s
   \<and> pendingEpochId (runPage evs s) = pendingEpochId s"
proof (induction evs arbitrary: s)
  case Nil
  then show ?case by (simp add: runPage_def)
next
  case (Cons e evs)
  have q: "quietEvent s e"
    using Cons.prems(2) by simp
  note step = quiet_step_fields [OF Cons.prems(1) q]
  have rest: "\<forall>e' \<in> set evs. quietEvent (pageStep e s) e'"
  proof
    fix e' assume "e' \<in> set evs"
    then have "quietEvent s e'"
      using Cons.prems(2) by simp
    then show "quietEvent (pageStep e s) e'"
      using step quietEvent_fields [of "pageStep e s" s e'] by simp
  qed
  have run: "runPage (e # evs) s = runPage evs (pageStep e s)"
    by (simp add: runPage_def)
  have w: "localSpinState (pageStep e s) = waiting_vrf"
    using step by simp
  show ?case
    using Cons.IH [OF w rest] step unfolding run by simp
qed

text \<open>
  C9. After the receipt effect has entered the waiting state at clock reading \<open>t0\<close>, any run
  of events on which no detector fires leaves the state waiting with the VRF timeout due
  at \<open>t0 + 120000\<close>; the timer does nothing at a clock reading before that, and at or after
  it the state becomes idle, with the balance poll cancelled and the snapshot cleared.
\<close>

theorem hard_timeout_bound:
  assumes "\<forall>e \<in> set evs. quietEvent (receiptEffect (Some success) t0 st0) e"
  shows "localSpinState (runPage evs (receiptEffect (Some success) t0 st0)) = waiting_vrf
       \<and> vrfTimeoutRef (runPage evs (receiptEffect (Some success) t0 st0)) = Some (t0 + 120000)
       \<and> (\<forall>now. now < t0 + 120000 \<longrightarrow>
            vrfTimer now (runPage evs (receiptEffect (Some success) t0 st0))
              = runPage evs (receiptEffect (Some success) t0 st0))
       \<and> (\<forall>now. t0 + 120000 \<le> now \<longrightarrow>
            localSpinState (vrfTimer now (runPage evs (receiptEffect (Some success) t0 st0))) = idle
            \<and> balancePollRef (vrfTimer now (runPage evs (receiptEffect (Some success) t0 st0))) = None
            \<and> preSpinBalanceRef (vrfTimer now (runPage evs (receiptEffect (Some success) t0 st0))) = None
            \<and> vrfTimeoutRef (vrfTimer now (runPage evs (receiptEffect (Some success) t0 st0))) = None)"
proof -
  let ?w = "receiptEffect (Some success) t0 st0"
  have w: "localSpinState ?w = waiting_vrf" "vrfTimeoutRef ?w = Some (t0 + 120000)"
    by (simp_all add: receiptEffect_def VRF_TIMEOUT_MS_def)
  have r: "localSpinState (runPage evs ?w) = waiting_vrf"
    "vrfTimeoutRef (runPage evs ?w) = Some (t0 + 120000)"
    using run_quiet_fields [OF w(1) assms] w(2) by simp_all
  show ?thesis
    using r by (simp add: vrfTimer_def vrfTimeoutCallback_def)
qed

theorem hard_timeout_bound_witness:
  "list_all (quietEvent (receiptEffect (Some success) 6000 confirmingPage))
     [TimePassed 125999, LogsPushed (Some ''0xA11ce'') [otherWin],
      RigRefreshed (Some exampleRig), PollTicked, Clicked connectedEnv]
   \<and> localSpinState
       (runPage [TimePassed 125999, LogsPushed (Some ''0xA11ce'') [otherWin],
                 RigRefreshed (Some exampleRig), PollTicked, Clicked connectedEnv]
          (receiptEffect (Some success) 6000 confirmingPage)) = waiting_vrf
   \<and> localSpinState
       (vrfTimer 126000
          (runPage [TimePassed 125999, LogsPushed (Some ''0xA11ce'') [otherWin],
                    RigRefreshed (Some exampleRig), PollTicked, Clicked connectedEnv]
             (receiptEffect (Some success) 6000 confirmingPage))) = idle"
proof -
  have q: "\<forall>e \<in> set [TimePassed 125999, LogsPushed (Some ''0xA11ce'') [otherWin],
                RigRefreshed (Some exampleRig), PollTicked, Clicked connectedEnv].
       quietEvent (receiptEffect (Some success) 6000 confirmingPage) e"
    by (simp add: receiptEffect_def confirmingPage_eval VRF_TIMEOUT_MS_def ownLog_def
        otherWin_def toLowerCase_def lowerChar_def exampleRig_def)
  show ?thesis
    using hard_timeout_bound [OF q] q by (simp add: list_all_iff)
qed

lemma confirming_step:
  assumes "localSpinState s = confirming"
    and "vrfTimeoutRef s = None"
    and "balancePollRef s = None"
  shows "pageStep e s = s"
proof (cases e)
  case (LogsPushed addr logs)
  then show ?thesis
    using assms(1) by (simp add: pageOnLogs_not_waiting)
next
  case (RigRefreshed rs)
  then show ?thesis
    using assms(1) by (simp add: balanceEffect_not_waiting)
next
  case PollTicked
  then show ?thesis
    using assms(3) by (simp add: balancePollTick_def)
next
  case (Clicked env)
  then show ?thesis
    using assms(1) by (simp add: handleSpin_busy)
next
  case (TimePassed now)
  then show ?thesis
    using assms(2) by (simp add: vrfTimer_def)
qed

lemma confirming_run:
  "localSpinState s = confirming \<Longrightarrow> vrfTimeoutRef s = None \<Longrightarrow> balancePollRef s = None \<Longrightarrow>
   runPage evs s = s"
  by (induction evs) (simp_all add: runPage_def confirming_step)

text \<open>
  C7. The code does not do what the claim says when a submission fails. The
  \<open>writeContract\<close> of the page returns at once, so \<open>handleSpin\<close> goes on to set the state to
  \<open>confirming\<close>; a rejected or failed submission shows only in the error state of the write
  hook, which no handler of the page reads, and no receipt follows it. From there every
  event the page reacts to (pushed wins, refreshed snapshots, poll ticks, further clicks,
  the passing of time, the receipt effect without a receipt) returns the state unchanged:
  the page stays in \<open>confirming\<close>, with the epoch id and the snapshot still recorded and
  the write not reset.
\<close>

theorem rejected_submission_stays_confirming:
  assumes "rigState env = Some rs"
    and "localSpinState st = idle"
    and "\<not> connectionThrows env"
    and "writeContractReturns env"
    and "vrfTimeoutRef st = None"
    and "balancePollRef st = None"
  shows "localSpinState (handleSpin env st) = confirming
       \<and> runPage evs (handleSpin env st) = handleSpin env st
       \<and> receiptEffect None now (handleSpin env st) = handleSpin env st
       \<and> pendingEpochId (handleSpin env st) = Some (epochId rs)
       \<and> preSpinBalanceRef (handleSpin env st) = Some (unitBalance rs)
       \<and> last (effects (handleSpin env st)) \<noteq> ResetWrite"
proof -
  note ok = handleSpin_ok [OF assms(1-4)]
  have run: "runPage evs (handleSpin env st) = handleSpin env st"
    using ok assms(5,6) by (intro confirming_run) simp_all
  obtain a st1 where r: "resolveTarget env st = Inr (Some a, st1)" "a \<noteq> []"
    using resolveTarget_ok [OF assms(3)] by blast
  have eff: "last (effects (handleSpin env st)) \<noteq> ResetWrite"
    using assms(1,2,4) r by (simp add: handleSpin_def truthy_def Let_def)
  show ?thesis
    using ok run eff by (simp add: receiptEffect_def)
qed

theorem rejected_submission_stays_confirming_witness:
  "rigState connectedEnv = Some exampleRig \<and> localSpinState initialPage = idle
   \<and> \<not> connectionThrows connectedEnv \<and> writeContractReturns connectedEnv
   \<and> vrfTimeoutRef initialPage = None \<and> balancePollRef initialPage = None
   \<and> handleSpin connectedEnv initialPage =
        \<lparr> localSpinState = confirming, pendingEpochId = Some 7, vrfTimeoutRef = None,
          balancePollRef = None, preSpinBalanceRef = Some 40,
          effects = [WriteContract ''0xA11ce'' 7 905 210 203] \<rparr>
   \<and> runPage [Clicked connectedEnv, TimePassed 999999,
               RigRefreshed (Some (exampleRig\<lparr> unitBalance := 41 \<rparr>)),
               LogsPushed (Some ''0xA11ce'') [scenarioWin], PollTicked]
        (handleSpin connectedEnv initialPage)
       = handleSpin connectedEnv initialPage
   \<and> localSpinState
        (runPage [Clicked connectedEnv, TimePassed 999999,
                  RigRefreshed (Some (exampleRig\<lparr> unitBalance := 41 \<rparr>)),
                  LogsPushed (Some ''0xA11ce'') [scenarioWin], PollTicked]
           (handleSpin connectedEnv initialPage)) = confirming"
proof -
  have h: "rigState connectedEnv = Some exampleRig" "localSpinState initialPage = idle"
    "\<not> connectionThrows connectedEnv" "writeContractReturns connectedEnv"
    "vrfTimeoutRef initialPage = None" "balancePollRef initialPage = None"
    by (simp_all add: connectedEnv_def initialPage_def connectionThrows_def truthy_def)
  note t = rejected_submission_stays_confirming [OF h,
      where evs = "[Clicked connectedEnv, TimePassed 999999,
               RigRefreshed (Some (exampleRig\<lparr> unitBalance := 41 \<rparr>)),
               LogsPushed (Some ''0xA11ce'') [scenarioWin], PollTicked]" and now = 0]
  have e: "handleSpin connectedEnv initialPage =
        \<lparr> localSpinState = confirming, pendingEpochId = Some 7, vrfTimeoutRef = None,
          balancePollRef = None, preSpinBalanceRef = Some 40,
          effects = [WriteContract ''0xA11ce'' 7 905 210 203] \<rparr>"
    using confirmingPage_eval by (simp add: confirmingPage_def)
  have r: "runPage [Clicked connectedEnv, TimePassed 999999,
               RigRefreshed (Some (exampleRig\<lparr> unitBalance := 41 \<rparr>)),
               LogsPushed (Some ''0xA11ce'') [scenarioWin], PollTicked]
        (handleSpin connectedEnv initialPage)
       = handleSpin connectedEnv initialPage"
    using t by blast
  have c: "localSpinState (handleSpin connectedEnv initialPage) = confirming"
    using t by blast
  show ?thesis
    unfolding r using h e c by blast
qed

section \<open>Properties of the global activity hooks\<close>

lemma Number_small: "n < 2 ^ 53 \<Longrightarrow> Number n = n"
  by (simp add: Number_def)

lemma patchWinUser_fresh:
  "win_id w = wid \<Longrightarrow> win_user w = None \<Longrightarrow>
   patchWinUser wid user (Some w) = Some (w\<lparr> win_user := user \<rparr>)"
  by (cases user) (simp_all add: patchWinUser_def)

lemma patchSpinUser_fresh:
  "spin_id s = sid \<Longrightarrow> spin_user s = None \<Longrightarrow>
   patchSpinUser sid user (Some s) = Some (s\<lparr> spin_user := user \<rparr>)"
  by (cases user) (simp_all add: patchSpinUser_def)

lemma newWinOf_fresh:
  "win_id (newWinOf a e odds amt tx now) = winIdOf a e tx"
  "win_user (newWinOf a e odds amt tx now) = None"
  by (simp_all add: newWinOf_def)

lemma newSpinOf_fresh:
  "spin_id (newSpinOf a e now) = spinIdOf a e"
  "spin_user (newSpinOf a e now) = None"
  by (simp_all add: newSpinOf_def)

lemma processWinEvent_skip:
  "lastWinIdRef st = Some (winIdOf (w_spinner log) (w_epochId log) (w_transactionHash log)) \<Longrightarrow>
   processWinEvent users now isNew log st = st"
  by (simp add: processWinEvent_def)

lemma processWinEvent_apply:
  assumes "lastWinIdRef st \<noteq> Some (winIdOf (w_spinner log) (w_epochId log) (w_transactionHash log))"
  shows "processWinEvent users now isNew log st =
     st\<lparr> activeSpin := None,
         lastWin := Some \<lparr> win_id = winIdOf (w_spinner log) (w_epochId log) (w_transactionHash log),
                           win_spinner = w_spinner log, win_epochId = w_epochId log,
                           win_oddsBps = Number (w_oddsPercent log), win_amount = w_amount log,
                           win_timestamp = now, win_user = fst (users (w_spinner log)),
                           win_symbol = getSymbolFromOdds (Number (w_oddsPercent log)) \<rparr>,
         isGlobalSpinning := False,
         showWinResult := (if isNew then True else showWinResult st),
         spinTimeoutRef := None,
         winDisplayRef := (if isNew then Some (now + 10000) else winDisplayRef st),
         lastWinIdRef := Some (winIdOf (w_spinner log) (w_epochId log) (w_transactionHash log)) \<rparr>"
  using assms
  by (simp add: processWinEvent_def Let_def patchWinUser_fresh newWinOf_fresh WIN_DISPLAY_MS_def)
    (simp add: newWinOf_def)

lemma watchWinBegin_apply:
  "watchWinBegin now log st =
     st\<lparr> activeSpin := None,
         lastWin := Some \<lparr> win_id = winIdOf (w_spinner log) (w_epochId log) (w_transactionHash log),
                           win_spinner = w_spinner log, win_epochId = w_epochId log,
                           win_oddsBps = Number (w_oddsPercent log), win_amount = w_amount log,
                           win_timestamp = now, win_user = None,
                           win_symbol = getSymbolFromOdds (Number (w_oddsPercent log)) \<rparr>,
         isGlobalSpinning := False,
         showWinResult := True,
         spinTimeoutRef := None \<rparr>"
  by (simp add: watchWinBegin_def newWinOf_def)

lemma watchWin_apply:
  "watchWin users now log st =
     st\<lparr> activeSpin := None,
         lastWin := Some \<lparr> win_id = winIdOf (w_spinner log) (w_epochId log) (w_transactionHash log),
                           win_spinner = w_spinner log, win_epochId = w_epochId log,
                           win_oddsBps = Number (w_oddsPercent log), win_amount = w_amount log,
                           win_timestamp = now, win_user = fst (users (w_spinner log)),
                           win_symbol = getSymbolFromOdds (Number (w_oddsPercent log)) \<rparr>,
         isGlobalSpinning := False,
         showWinResult := True,
         spinTimeoutRef := None,
         winDisplayRef := Some (now + snd (users (w_spinner log)) + 10000) \<rparr>"
  by (simp add: watchWin_def watchWinResume_def watchWinBegin_def patchWinUser_fresh
      newWinOf_fresh WIN_DISPLAY_MS_def)
    (simp add: newWinOf_def)

lemma spinBegin_apply:
  "spinBegin spinner epoch now st =
     st\<lparr> activeSpin := Some \<lparr> spin_id = spinIdOf spinner epoch, spin_spinner = spinner,
                              spin_epochId = epoch, spin_timestamp = now, spin_user = None \<rparr>,
         isGlobalSpinning := True,
         showWinResult := False \<rparr>"
  by (simp add: spinBegin_def newSpinOf_def)

lemma processSpinEvent_apply:
  "processSpinEvent users now spinner epoch st =
     st\<lparr> activeSpin := Some \<lparr> spin_id = spinIdOf spinner epoch, spin_spinner = spinner,
                              spin_epochId = epoch, spin_timestamp = now,
                              spin_user = fst (users spinner) \<rparr>,
         isGlobalSpinning := True,
         showWinResult := False,
         spinTimeoutRef := Some (now + snd (users spinner) + 120000, spinIdOf spinner epoch) \<rparr>"
  by (simp add: processSpinEvent_def spinBegin_def spinResume_def patchSpinUser_fresh
      newSpinOf_fresh SPIN_TIMEOUT_MS_def)
    (simp add: newSpinOf_def)

lemma scenario_ids:
  "winIdOf (w_spinner scenarioWin) (w_epochId scenarioWin) (w_transactionHash scenarioWin)
     = ''win-0xA11ce-7-0xfeed''"
  "winIdOf (w_spinner otherWin) (w_epochId otherWin) (w_transactionHash otherWin)
     = ''win-0xB0b-8-0xbeef''"
  "spinIdOf ''0xA11ce'' 7 = ''spin-0xA11ce-7''"
  by (simp_all add: winIdOf_def spinIdOf_def scenarioWin_def otherWin_def toString.simps
      digitChar_def)

lemma scenario_symbol:
  "getSymbolFromOdds (Number (w_oddsPercent scenarioWin))
     = \<lparr> emoji = ''U+1F48E'', name = ''Diamond'', oddsBps = 5000, payout = ''50%'',
         tier = jackpot \<rparr>"
  "Number (w_oddsPercent scenarioWin) = 5000"
  "getSymbolFromOdds 5000
     = \<lparr> emoji = ''U+1F48E'', name = ''Diamond'', oddsBps = 5000, payout = ''50%'',
         tier = jackpot \<rparr>"
  by (simp_all add: getSymbolFromOdds_def SLOT_SYMBOLS_def scenarioWin_def Number_small)

lemma Number_rounds:
  "Number (2 ^ 53 + 1) = 2 ^ 53" "Number (2 ^ 53 + 3) = 2 ^ 53 + 4"
  by (simp_all add: Number_def bitLength.simps Let_def)

lemma winDisplayTimer_armed:
  assumes "winDisplayRef st = Some due"
  shows "(\<forall>t. t < due \<longrightarrow> winDisplayTimer t st = st)
       \<and> (\<forall>t. due \<le> t \<longrightarrow>
            winDisplayTimer t st = st\<lparr> showWinResult := False, winDisplayRef := None \<rparr>)"
  using assms by (simp add: winDisplayTimer_def winDisplayCallback_def)


text \<open>
  C5. In the polling hook, a win that is applied (its id is not the id processed last)
  cancels the liveness timeout, clears the active spin, sets the spinning flag to false and
  stores the win built from the log (id, spinner, epoch, odds as a number, amount, the
  clock reading, the user found, the symbol of the odds) as the last win. When it is new,
  the highlight is set and a display timeout is armed 10 seconds ahead; when it is not,
  the highlight and the display timeout are left alone. In the watching hook every pushed
  win does the same before its identity lookup and sets the highlight; when the lookup has
  returned it arms the display timeout 10 seconds ahead of that moment, whatever the state
  is by then. In any state with the display timeout armed, the timer does nothing before
  the due time, and at or after it clears the highlight and nothing else, so the last win
  stays.
\<close>

theorem apply_win_effects:
  "(lastWinIdRef st \<noteq> Some (winIdOf (w_spinner log) (w_epochId log) (w_transactionHash log)) \<longrightarrow>
      spinTimeoutRef (processWinEvent users now isNew log st) = None
      \<and> activeSpin (processWinEvent users now isNew log st) = None
      \<and> \<not> isGlobalSpinning (processWinEvent users now isNew log st)
      \<and> lastWin (processWinEvent users now isNew log st) =
          Some \<lparr> win_id = winIdOf (w_spinner log) (w_epochId log) (w_transactionHash log),
                 win_spinner = w_spinner log, win_epochId = w_epochId log,
                 win_oddsBps = Number (w_oddsPercent log), win_amount = w_amount log,
                 win_timestamp = now, win_user = fst (users (w_spinner log)),
                 win_symbol = getSymbolFromOdds (Number (w_oddsPercent log)) \<rparr>
      \<and> (isNew \<longrightarrow>
            showWinResult (processWinEvent users now isNew log st)
            \<and> winDisplayRef (processWinEvent users now isNew log st) = Some (now + 10000))
      \<and> (\<not> isNew \<longrightarrow>
            showWinResult (processWinEvent users now isNew log st) = showWinResult st
            \<and> winDisplayRef (processWinEvent users now isNew log st) = winDisplayRef st))
   \<and> spinTimeoutRef (watchWinBegin now log ws) = None
   \<and> activeSpin (watchWinBegin now log ws) = None
   \<and> \<not> isGlobalSpinning (watchWinBegin now log ws)
   \<and> lastWin (watchWinBegin now log ws) =
        Some \<lparr> win_id = winIdOf (w_spinner log) (w_epochId log) (w_transactionHash log),
               win_spinner = w_spinner log, win_epochId = w_epochId log,
               win_oddsBps = Number (w_oddsPercent log), win_amount = w_amount log,
               win_timestamp = now, win_user = None,
               win_symbol = getSymbolFromOdds (Number (w_oddsPercent log)) \<rparr>
   \<and> showWinResult (watchWinBegin now log ws)
   \<and> winDisplayRef (watchWinBegin now log ws) = winDisplayRef ws
   \<and> watchWinResume wid user resumed wsx =
        wsx\<lparr> lastWin := patchWinUser wid user (lastWin wsx),
             winDisplayRef := Some (resumed + 10000) \<rparr>
   \<and> watchWin users now log ws =
        ws\<lparr> activeSpin := None,
            lastWin :=
              Some \<lparr> win_id = winIdOf (w_spinner log) (w_epochId log) (w_transactionHash log),
                     win_spinner = w_spinner log, win_epochId = w_epochId log,
                     win_oddsBps = Number (w_oddsPercent log), win_amount = w_amount log,
                     win_timestamp = now, win_user = fst (users (w_spinner log)),
                     win_symbol = getSymbolFromOdds (Number (w_oddsPercent log)) \<rparr>,
            isGlobalSpinning := False, showWinResult := True, spinTimeoutRef := None,
            winDisplayRef := Some (now + snd (users (w_spinner log)) + 10000) \<rparr>
   \<and> (winDisplayRef ps = Some due \<longrightarrow>
        (\<forall>t. t < due \<longrightarrow> winDisplayTimer t ps = ps)
        \<and> (\<forall>t. due \<le> t \<longrightarrow>
              winDisplayTimer t ps = ps\<lparr> showWinResult := False, winDisplayRef := None \<rparr>))"
  (is "(?H \<longrightarrow> ?P) \<and> ?W")
proof -
  have poll: "?H \<longrightarrow> ?P"
    by (simp add: processWinEvent_apply)
  have watch: "?W"
    using winDisplayTimer_armed [of ps due]
    by (simp add: watchWinBegin_apply watchWin_apply watchWinResume_def WIN_DISPLAY_MS_def)
  show ?thesis
    using poll watch by blast
qed

theorem apply_win_effects_witness:
  "lastWinIdRef spinApplied
     \<noteq> Some (winIdOf (w_spinner scenarioWin) (w_epochId scenarioWin) (w_transactionHash scenarioWin))
   \<and> activeSpin spinApplied \<noteq> None
   \<and> spinTimeoutRef spinApplied \<noteq> None
   \<and> activeSpin winApplied = None
   \<and> \<not> isGlobalSpinning winApplied
   \<and> spinTimeoutRef winApplied = None
   \<and> lastWin winApplied =
        Some \<lparr> win_id = ''win-0xA11ce-7-0xfeed'', win_spinner = ''0xA11ce'', win_epochId = 7,
               win_oddsBps = 5000, win_amount = 500 * 10 ^ 18, win_timestamp = 300,
               win_user = Some alice,
               win_symbol = \<lparr> emoji = ''U+1F48E'', name = ''Diamond'', oddsBps = 5000,
                              payout = ''50%'', tier = jackpot \<rparr> \<rparr>
   \<and> showWinResult winApplied
   \<and> winDisplayRef winApplied = Some 10300
   \<and> winDisplayTimer 10299 winApplied = winApplied
   \<and> winDisplayTimer 10300 winApplied = winApplied\<lparr> showWinResult := False, winDisplayRef := None \<rparr>
   \<and> lastWin (winDisplayTimer 10300 winApplied) = lastWin winApplied
   \<and> winDisplayRef winPushed = Some 10550"
proof -
  have s: "lastWinIdRef spinApplied = None" "activeSpin spinApplied \<noteq> None"
    "spinTimeoutRef spinApplied \<noteq> None"
    by (simp_all add: spinApplied_def processSpinEvent_apply initialPolling_def)
  then have h: "lastWinIdRef spinApplied
     \<noteq> Some (winIdOf (w_spinner scenarioWin) (w_epochId scenarioWin) (w_transactionHash scenarioWin))"
    by simp
  note t = apply_win_effects [where st = spinApplied and log = scenarioWin and users = slowUsers
      and now = 300 and isNew = True and ws = initialWatching and ps = winApplied
      and due = 10300 and wid = "''x''" and user = None and resumed = 0
      and wsx = initialWatching, folded winApplied_def]
  have a: "activeSpin winApplied = None \<and> \<not> isGlobalSpinning winApplied
      \<and> spinTimeoutRef winApplied = None \<and> showWinResult winApplied
      \<and> winDisplayRef winApplied = Some 10300"
    using t h by simp
  have l: "lastWin winApplied =
        Some \<lparr> win_id = ''win-0xA11ce-7-0xfeed'', win_spinner = ''0xA11ce'', win_epochId = 7,
               win_oddsBps = 5000, win_amount = 500 * 10 ^ 18, win_timestamp = 300,
               win_user = Some alice,
               win_symbol = \<lparr> emoji = ''U+1F48E'', name = ''Diamond'', oddsBps = 5000,
                              payout = ''50%'', tier = jackpot \<rparr> \<rparr>"
    using t h by (simp add: scenario_ids scenario_symbol slowUsers_def) (simp add: scenarioWin_def)
  have b: "winDisplayTimer 10299 winApplied = winApplied"
    using t a by simp
  have c: "winDisplayTimer 10300 winApplied
      = winApplied\<lparr> showWinResult := False, winDisplayRef := None \<rparr>"
    using t a by simp
  have p: "winDisplayRef winPushed = Some 10550"
    using apply_win_effects [where st = spinApplied and log = scenarioWin and users = slowUsers
        and now = 300 and isNew = True and ws = initialWatching and ps = winApplied
        and due = 10300 and wid = "''x''" and user = None and resumed = 0
        and wsx = initialWatching]
    by (simp add: winPushed_def slowUsers_def)
  show ?thesis
    using h s a l b p by (simp add: c)
qed



lemma processWinEvent_twice:
  "processWinEvent users' now' isNew' log (processWinEvent users now isNew log st)
     = processWinEvent users now isNew log st"
proof (cases "lastWinIdRef st = Some (winIdOf (w_spinner log) (w_epochId log) (w_transactionHash log))")
  case True
  then show ?thesis
    by (simp add: processWinEvent_skip)
next
  case False
  have "lastWinIdRef (processWinEvent users now isNew log st)
      = Some (winIdOf (w_spinner log) (w_epochId log) (w_transactionHash log))"
    by (simp add: processWinEvent_apply [OF False])
  then show ?thesis
    by (rule processWinEvent_skip)
qed

lemma processWinEvent_last_id:
  "lastWinIdRef (processWinEvent users now isNew log st)
     = Some (winIdOf (w_spinner log) (w_epochId log) (w_transactionHash log))"
proof (cases "lastWinIdRef st = Some (winIdOf (w_spinner log) (w_epochId log) (w_transactionHash log))")
  case True
  then show ?thesis
    by (simp add: processWinEvent_skip)
next
  case False
  then show ?thesis
    by (simp add: processWinEvent_apply)
qed

lemma winApplied_eval:
  "winApplied =
     initialPolling\<lparr> activeSpin := None,
       lastWin := Some \<lparr> win_id = ''win-0xA11ce-7-0xfeed'', win_spinner = ''0xA11ce'',
                         win_epochId = 7, win_oddsBps = 5000, win_amount = 500 * 10 ^ 18,
                         win_timestamp = 300, win_user = Some alice,
                         win_symbol = \<lparr> emoji = ''U+1F48E'', name = ''Diamond'', oddsBps = 5000,
                                        payout = ''50%'', tier = jackpot \<rparr> \<rparr>,
       isGlobalSpinning := False, showWinResult := True, spinTimeoutRef := None,
       winDisplayRef := Some 10300, lastWinIdRef := Some ''win-0xA11ce-7-0xfeed'' \<rparr>"
proof -
  have fresh: "lastWinIdRef spinApplied \<noteq>
      Some (winIdOf (w_spinner scenarioWin) (w_epochId scenarioWin) (w_transactionHash scenarioWin))"
    by (simp add: spinApplied_def processSpinEvent_apply initialPolling_def)
  show ?thesis
    unfolding winApplied_def processWinEvent_apply [OF fresh]
    by (simp add: scenario_ids scenario_symbol slowUsers_def spinApplied_def
        processSpinEvent_apply)
      (simp add: scenarioWin_def)
qed

text \<open>
  C1 as stated fails. In the polling hook a spin is applied, the win of its epoch is
  applied, and the same spin is delivered again: the second delivery is not ignored, the
  spin is active again and a new liveness timeout is armed. Also in the polling hook, a
  win is applied, a different win is applied, and the first win is delivered again: it is
  applied again and its display timeout is re-armed. In the watching hook, a win pushed a
  second time is applied again: the display timeout is re-armed.
\<close>

theorem redelivery_applied_again:
  "activeSpin winApplied = None
   \<and> \<not> isGlobalSpinning winApplied
   \<and> spinTimeoutRef winApplied = None
   \<and> map_option spin_id (activeSpin spinApplied) = Some ''spin-0xA11ce-7''
   \<and> map_option spin_id (activeSpin spinRedelivered) = Some ''spin-0xA11ce-7''
   \<and> isGlobalSpinning spinRedelivered
   \<and> spinTimeoutRef spinRedelivered = Some (120850, ''spin-0xA11ce-7'')
   \<and> spinRedelivered \<noteq> winApplied
   \<and> map_option win_id (lastWin winApplied) = Some ''win-0xA11ce-7-0xfeed''
   \<and> map_option win_id (lastWin otherWinApplied) = Some ''win-0xB0b-8-0xbeef''
   \<and> map_option win_id (lastWin winAppliedAgain) = Some ''win-0xA11ce-7-0xfeed''
   \<and> map_option win_timestamp (lastWin winAppliedAgain) = Some 900
   \<and> winDisplayRef otherWinApplied = Some 10600
   \<and> winDisplayRef winAppliedAgain = Some 10900
   \<and> winAppliedAgain \<noteq> otherWinApplied
   \<and> winDisplayRef winPushed = Some 10550
   \<and> winDisplayRef winPushedAgain = Some 12250
   \<and> winPushedAgain \<noteq> winPushed"
proof -
  have s: "map_option spin_id (activeSpin spinApplied) = Some ''spin-0xA11ce-7''"
    by (simp add: spinApplied_def processSpinEvent_apply scenario_ids)
  have w: "activeSpin winApplied = None \<and> \<not> isGlobalSpinning winApplied
      \<and> spinTimeoutRef winApplied = None
      \<and> map_option win_id (lastWin winApplied) = Some ''win-0xA11ce-7-0xfeed''
      \<and> lastWinIdRef winApplied = Some ''win-0xA11ce-7-0xfeed''"
    by (simp add: winApplied_eval)
  have r: "map_option spin_id (activeSpin spinRedelivered) = Some ''spin-0xA11ce-7''
      \<and> isGlobalSpinning spinRedelivered
      \<and> spinTimeoutRef spinRedelivered = Some (120850, ''spin-0xA11ce-7'')"
    by (simp add: spinRedelivered_def processSpinEvent_apply scenario_ids slowUsers_def)
  have fresh_b: "lastWinIdRef winApplied \<noteq>
      Some (winIdOf (w_spinner otherWin) (w_epochId otherWin) (w_transactionHash otherWin))"
    using w by (simp add: scenario_ids)
  have b: "map_option win_id (lastWin otherWinApplied) = Some ''win-0xB0b-8-0xbeef''
      \<and> winDisplayRef otherWinApplied = Some 10600
      \<and> lastWinIdRef otherWinApplied = Some ''win-0xB0b-8-0xbeef''"
    unfolding otherWinApplied_def processWinEvent_apply [OF fresh_b]
    by (simp add: scenario_ids)
  have fresh_a: "lastWinIdRef otherWinApplied \<noteq>
      Some (winIdOf (w_spinner scenarioWin) (w_epochId scenarioWin) (w_transactionHash scenarioWin))"
    using b by (simp add: scenario_ids)
  have a: "map_option win_id (lastWin winAppliedAgain) = Some ''win-0xA11ce-7-0xfeed''
      \<and> map_option win_timestamp (lastWin winAppliedAgain) = Some 900
      \<and> winDisplayRef winAppliedAgain = Some 10900"
    unfolding winAppliedAgain_def processWinEvent_apply [OF fresh_a]
    by (simp add: scenario_ids)
  have p: "winDisplayRef winPushed = Some 10550 \<and> winDisplayRef winPushedAgain = Some 12250"
    by (simp add: winPushed_def winPushedAgain_def watchWin_apply slowUsers_def)
  have n1: "spinRedelivered \<noteq> winApplied"
    using w r by auto
  have n2: "winAppliedAgain \<noteq> otherWinApplied"
    using a b by auto
  have n3: "winPushedAgain \<noteq> winPushed"
    using p by auto
  show ?thesis
    using s w r b a p n1 n2 n3 by simp
qed

text \<open>
  C1, amended. In the polling hook a win is ignored exactly when its id is the id of the
  win processed last: then no field changes and no timer is re-armed, so applying the same
  win twice in a row is the same as applying it once; a win with any other id is applied,
  also when it was applied before the last one. Spins, and wins pushed to the watcher, are
  not deduplicated: on every delivery the part of the handler before the identity lookup
  sets the state fields again, and the part after it arms a new timeout, whatever the
  state is.
\<close>

theorem redelivery_win_ignored_spin_reapplied:
  "(lastWinIdRef st = Some (winIdOf (w_spinner log) (w_epochId log) (w_transactionHash log)) \<longrightarrow>
      processWinEvent users now isNew log st = st)
   \<and> processWinEvent users' now' isNew' log (processWinEvent users now isNew log st)
       = processWinEvent users now isNew log st
   \<and> (lastWinIdRef st \<noteq> Some (winIdOf (w_spinner log) (w_epochId log) (w_transactionHash log)) \<longrightarrow>
        processWinEvent users now isNew log st \<noteq> st
        \<and> lastWinIdRef (processWinEvent users now isNew log st)
            = Some (winIdOf (w_spinner log) (w_epochId log) (w_transactionHash log))
        \<and> map_option win_timestamp (lastWin (processWinEvent users now isNew log st)) = Some now
        \<and> map_option win_id (lastWin (processWinEvent users now isNew log st))
            = Some (winIdOf (w_spinner log) (w_epochId log) (w_transactionHash log))
        \<and> (isNew \<longrightarrow> winDisplayRef (processWinEvent users now isNew log st) = Some (now + 10000)))
   \<and> (winIdOf (w_spinner other) (w_epochId other) (w_transactionHash other)
         \<noteq> winIdOf (w_spinner log) (w_epochId log) (w_transactionHash log) \<longrightarrow>
        map_option win_timestamp
          (lastWin (processWinEvent users'' now'' True log
                     (processWinEvent users' now' isNew' other
                        (processWinEvent users now isNew log st)))) = Some now''
        \<and> winDisplayRef (processWinEvent users'' now'' True log
                           (processWinEvent users' now' isNew' other
                              (processWinEvent users now isNew log st))) = Some (now'' + 10000))
   \<and> activeSpin (spinBegin spinner epoch now ps) =
        Some \<lparr> spin_id = spinIdOf spinner epoch, spin_spinner = spinner, spin_epochId = epoch,
               spin_timestamp = now, spin_user = None \<rparr>
   \<and> isGlobalSpinning (spinBegin spinner epoch now ps)
   \<and> \<not> showWinResult (spinBegin spinner epoch now ps)
   \<and> spinTimeoutRef (spinResume sid user resumed ps) = Some (resumed + 120000, sid)
   \<and> map_option win_timestamp (lastWin (watchWinBegin now log ws)) = Some now
   \<and> map_option win_id (lastWin (watchWinBegin now log ws))
       = Some (winIdOf (w_spinner log) (w_epochId log) (w_transactionHash log))
   \<and> showWinResult (watchWinBegin now log ws)
   \<and> winDisplayRef (watchWinResume wid user resumed ws) = Some (resumed + 10000)"
  (is "?A \<and> ?B \<and> ?C \<and> ?D \<and> ?E")
proof -
  have a: "?A"
    by (simp add: processWinEvent_skip)
  have b: "?B"
    by (rule processWinEvent_twice)
  have c: "?C"
  proof
    assume fresh: "lastWinIdRef st \<noteq>
        Some (winIdOf (w_spinner log) (w_epochId log) (w_transactionHash log))"
    have id: "lastWinIdRef (processWinEvent users now isNew log st)
        = Some (winIdOf (w_spinner log) (w_epochId log) (w_transactionHash log))"
      by (rule processWinEvent_last_id)
    have changed: "processWinEvent users now isNew log st \<noteq> st"
      using id fresh by auto
    show "processWinEvent users now isNew log st \<noteq> st
        \<and> lastWinIdRef (processWinEvent users now isNew log st)
            = Some (winIdOf (w_spinner log) (w_epochId log) (w_transactionHash log))
        \<and> map_option win_timestamp (lastWin (processWinEvent users now isNew log st)) = Some now
        \<and> map_option win_id (lastWin (processWinEvent users now isNew log st))
            = Some (winIdOf (w_spinner log) (w_epochId log) (w_transactionHash log))
        \<and> (isNew \<longrightarrow> winDisplayRef (processWinEvent users now isNew log st) = Some (now + 10000))"
      using changed id by (simp add: processWinEvent_apply [OF fresh])
  qed
  have d: "?D"
  proof
    assume differ: "winIdOf (w_spinner other) (w_epochId other) (w_transactionHash other)
         \<noteq> winIdOf (w_spinner log) (w_epochId log) (w_transactionHash log)"
    let ?s = "processWinEvent users' now' isNew' other (processWinEvent users now isNew log st)"
    have "lastWinIdRef ?s
        = Some (winIdOf (w_spinner other) (w_epochId other) (w_transactionHash other))"
      by (rule processWinEvent_last_id)
    then have fresh: "lastWinIdRef ?s \<noteq>
        Some (winIdOf (w_spinner log) (w_epochId log) (w_transactionHash log))"
      using differ by simp
    show "map_option win_timestamp (lastWin (processWinEvent users'' now'' True log ?s)) = Some now''
        \<and> winDisplayRef (processWinEvent users'' now'' True log ?s) = Some (now'' + 10000)"
      by (simp add: processWinEvent_apply [OF fresh])
  qed
  have e: "?E"
    by (simp add: spinBegin_apply spinResume_def watchWinBegin_apply watchWinResume_def
        SPIN_TIMEOUT_MS_def WIN_DISPLAY_MS_def)
  show ?thesis
    using a b c d e by blast
qed

theorem redelivery_win_ignored_spin_reapplied_witness:
  "lastWinIdRef winApplied
     = Some (winIdOf (w_spinner scenarioWin) (w_epochId scenarioWin) (w_transactionHash scenarioWin))
   \<and> processWinEvent slowUsers 2000 True scenarioWin winApplied = winApplied
   \<and> lastWinIdRef spinApplied
     \<noteq> Some (winIdOf (w_spinner scenarioWin) (w_epochId scenarioWin) (w_transactionHash scenarioWin))
   \<and> winApplied \<noteq> spinApplied
   \<and> winIdOf (w_spinner otherWin) (w_epochId otherWin) (w_transactionHash otherWin)
       \<noteq> winIdOf (w_spinner scenarioWin) (w_epochId scenarioWin) (w_transactionHash scenarioWin)
   \<and> map_option win_timestamp (lastWin winAppliedAgain) = Some 900
   \<and> winDisplayRef winAppliedAgain = Some 10900"
proof -
  have h: "lastWinIdRef winApplied
     = Some (winIdOf (w_spinner scenarioWin) (w_epochId scenarioWin) (w_transactionHash scenarioWin))"
    by (simp add: winApplied_eval scenario_ids)
  have f: "lastWinIdRef spinApplied
     \<noteq> Some (winIdOf (w_spinner scenarioWin) (w_epochId scenarioWin) (w_transactionHash scenarioWin))"
    by (simp add: spinApplied_def processSpinEvent_apply initialPolling_def)
  have ids: "winIdOf (w_spinner otherWin) (w_epochId otherWin) (w_transactionHash otherWin)
       \<noteq> winIdOf (w_spinner scenarioWin) (w_epochId scenarioWin) (w_transactionHash scenarioWin)"
    by (simp add: scenario_ids)
  note t1 = redelivery_win_ignored_spin_reapplied [where st = winApplied and log = scenarioWin
      and users = slowUsers and now = 2000 and isNew = True and users' = slowUsers
      and now' = 2000 and isNew' = True and other = otherWin and users'' = slowUsers
      and now'' = 2000 and spinner = "''0xA11ce''" and epoch = 7 and ps = initialPolling
      and sid = "''x''" and user = None and resumed = 0 and ws = initialWatching
      and wid = "''x''"]
  note t2 = redelivery_win_ignored_spin_reapplied [where st = spinApplied and log = scenarioWin
      and users = slowUsers and now = 300 and isNew = True and users' = slowUsers
      and now' = 600 and isNew' = True and other = otherWin and users'' = slowUsers
      and now'' = 900 and spinner = "''0xA11ce''" and epoch = 7 and ps = initialPolling
      and sid = "''x''" and user = None and resumed = 0 and ws = initialWatching
      and wid = "''x''", folded winApplied_def]
  have a: "processWinEvent slowUsers 2000 True scenarioWin winApplied = winApplied"
    using t1 h by blast
  have b: "winApplied \<noteq> spinApplied"
    using t2 f by blast
  have c: "map_option win_timestamp (lastWin winAppliedAgain) = Some 900
      \<and> winDisplayRef winAppliedAgain = Some 10900"
    using t2 ids by (simp add: winAppliedAgain_def otherWinApplied_def)
  show ?thesis
    using h f ids a b c by blast
qed

lemma processWinEvent_backfill_quiet:
  "showWinResult (processWinEvent users now False log st) = showWinResult st
   \<and> winDisplayRef (processWinEvent users now False log st) = winDisplayRef st"
proof (cases "lastWinIdRef st = Some (winIdOf (w_spinner log) (w_epochId log) (w_transactionHash log))")
  case True
  then show ?thesis
    by (simp add: processWinEvent_skip)
next
  case False
  then show ?thesis
    by (simp add: processWinEvent_apply)
qed

lemma firstPoll_result:
  assumes "lastProcessedBlockRef st = None"
    and "getBlockNumber client = Some cb"
    and "getWinLogs client (clampBlock (cb - lookback)) cb = Some logs"
  shows "pollWith lookback client users now st =
     (if logs = [] then st else processWinEvent users now False (last logs) st)
       \<lparr> lastProcessedBlockRef := Some cb \<rparr>"
  using assms by (simp add: pollWith_def firstPoll_def)

lemma firstPoll_reads_no_spins:
  "lastProcessedBlockRef st = None \<Longrightarrow>
   pollWith lookback (client\<lparr> getSpinLogs := g \<rparr>) users now st
     = pollWith lookback client users now st"
  by (cases "getBlockNumber client") (simp_all add: pollWith_def firstPoll_def)

lemma sorted_last_greatest:
  "sorted (map f xs) \<Longrightarrow> x \<in> set xs \<Longrightarrow> f x \<le> f (last xs)"
proof (induction xs)
  case Nil
  then show ?case by simp
next
  case (Cons y ys)
  then show ?case
    by (cases "ys = []") auto
qed

lemma scenario_window:
  "50 \<le> lookback \<Longrightarrow>
   getWinLogs (clientOf scenarioChain) (clampBlock (1000 - lookback)) 1000 = Some [scenarioWin]"
  by (simp add: clientOf_def scenarioChain_def clampBlock_def scenarioWin_def)

lemma scenario_poll:
  assumes "50 \<le> lookback"
  shows "pollWith lookback (clientOf scenarioChain) users now initialPolling =
     (processWinEvent users now False scenarioWin initialPolling)
       \<lparr> lastProcessedBlockRef := Some 1000 \<rparr>"
proof -
  have c: "lastProcessedBlockRef initialPolling = None"
    "getBlockNumber (clientOf scenarioChain) = Some 1000"
    by (simp_all add: initialPolling_def clientOf_def scenarioChain_def)
  show ?thesis
    using firstPoll_result [OF c scenario_window [OF assms]] by simp
qed

lemma scenario_tier:
  "tier (getSymbolFromOdds (Number (w_oddsPercent scenarioWin))) = jackpot"
  by (simp add: scenario_symbol)

lemma scenario_backfill:
  assumes "50 \<le> lookback"
  shows "map_option (\<lambda>w. tier (win_symbol w))
           (lastWin (pollWith lookback (clientOf scenarioChain) users now initialPolling))
           = Some jackpot
       \<and> showWinResult (pollWith lookback (clientOf scenarioChain) users now initialPolling) = False
       \<and> lastProcessedBlockRef (pollWith lookback (clientOf scenarioChain) users now initialPolling)
           = Some 1000"
proof -
  have fresh: "lastWinIdRef initialPolling \<noteq>
      Some (winIdOf (w_spinner scenarioWin) (w_epochId scenarioWin) (w_transactionHash scenarioWin))"
    by (simp add: initialPolling_def)
  have off: "showWinResult initialPolling = False"
    by (simp add: initialPolling_def)
  show ?thesis
    unfolding scenario_poll [OF assms]
    by (simp add: processWinEvent_apply [OF fresh] scenario_tier off)
qed

lemma scenario_mount:
  "map_option (\<lambda>w. tier (win_symbol w))
     (lastWin (mountEffect (Some (clientOf scenarioChain)) users now initialWatching)) = Some jackpot
   \<and> showWinResult (mountEffect (Some (clientOf scenarioChain)) users now initialWatching) = False"
proof -
  have w: "getWinLogs (clientOf scenarioChain) (clampBlock (1000 - MOUNT_LOOKBACK)) 1000
      = Some [scenarioWin]"
    by (rule scenario_window) (simp add: MOUNT_LOOKBACK_def)
  have b: "getBlockNumber (clientOf scenarioChain) = Some 1000"
    by (simp add: clientOf_def scenarioChain_def)
  show ?thesis
    by (simp add: mountEffect_def fetchRecentWin_def initialWatching_def b w Let_def
        patchWinUser_fresh newWinOf_fresh, simp add: newWinOf_def scenario_tier)
qed

text \<open>
  C2. The first poll (no cursor yet) whose fetches succeed reads win logs only, over the
  window from the clamped \<open>currentBlock - lookback\<close> to the current block, applies the last
  log of the answer as a win that is not new (the most recent one when the answer is in
  block order), leaves the win highlight and its timer as they were, and sets the cursor to
  the current block. In the scenario (head 1000, one win log at block 950 with odds 5000
  and amount \<open>500 * 10^18\<close>), with a lookback of 1800 blocks as with the 3600 of the source,
  the last win has tier jackpot, the highlight is off and the cursor is 1000; the mount
  fetch of the watching hook, which has no cursor, gives the same win and highlight.
\<close>

theorem first_poll_backfill:
  "(lastProcessedBlockRef st = None \<and> getBlockNumber client = Some cb
      \<and> getWinLogs client (clampBlock (cb - lookback)) cb = Some logs \<longrightarrow>
      pollWith lookback client users now st =
        (if logs = [] then st else processWinEvent users now False (last logs) st)
          \<lparr> lastProcessedBlockRef := Some cb \<rparr>
      \<and> lastProcessedBlockRef (pollWith lookback client users now st) = Some cb
      \<and> showWinResult (pollWith lookback client users now st) = showWinResult st
      \<and> winDisplayRef (pollWith lookback client users now st) = winDisplayRef st
      \<and> pollWith lookback (client\<lparr> getSpinLogs := g \<rparr>) users now st
          = pollWith lookback client users now st
      \<and> (sorted (map w_blockNumber logs) \<longrightarrow>
            (\<forall>l \<in> set logs. w_blockNumber l \<le> w_blockNumber (last logs))))
   \<and> map_option (\<lambda>w. tier (win_symbol w))
        (lastWin (pollWith 1800 (clientOf scenarioChain) users now initialPolling)) = Some jackpot
   \<and> showWinResult (pollWith 1800 (clientOf scenarioChain) users now initialPolling) = False
   \<and> lastProcessedBlockRef (pollWith 1800 (clientOf scenarioChain) users now initialPolling)
       = Some 1000
   \<and> map_option (\<lambda>w. tier (win_symbol w))
        (lastWin (pollForEvents (clientOf scenarioChain) users now initialPolling)) = Some jackpot
   \<and> showWinResult (pollForEvents (clientOf scenarioChain) users now initialPolling) = False
   \<and> lastProcessedBlockRef (pollForEvents (clientOf scenarioChain) users now initialPolling)
       = Some 1000
   \<and> map_option (\<lambda>w. tier (win_symbol w))
        (lastWin (mountEffect (Some (clientOf scenarioChain)) users now initialWatching))
        = Some jackpot
   \<and> showWinResult (mountEffect (Some (clientOf scenarioChain)) users now initialWatching) = False"
  (is "(?H \<longrightarrow> ?G) \<and> ?S")
proof -
  have general: "?H \<longrightarrow> ?G"
  proof
    assume "?H"
    then have h: "lastProcessedBlockRef st = None" "getBlockNumber client = Some cb"
      "getWinLogs client (clampBlock (cb - lookback)) cb = Some logs"
      by simp_all
    show "?G"
      using firstPoll_result [OF h] firstPoll_reads_no_spins [OF h(1)]
        processWinEvent_backfill_quiet [of users now "last logs" st]
        sorted_last_greatest [of w_blockNumber logs]
      by auto
  qed
  have s1800: "(50::int) \<le> 1800" and s3600: "50 \<le> POLL_LOOKBACK"
    by (simp_all add: POLL_LOOKBACK_def)
  have scenario: "?S"
    using scenario_backfill [OF s1800, of users now]
      scenario_backfill [OF s3600, of users now] scenario_mount [of users now]
    by (simp add: pollForEvents_def)
  show ?thesis
    using general scenario by blast
qed

theorem first_poll_backfill_witness:
  "lastProcessedBlockRef initialPolling = None
   \<and> getBlockNumber (clientOf scenarioChain) = Some 1000
   \<and> getWinLogs (clientOf scenarioChain) (clampBlock (1000 - 1800)) 1000 = Some [scenarioWin]
   \<and> sorted (map w_blockNumber [scenarioWin])
   \<and> pollWith 1800 (clientOf scenarioChain) noUsers 50 initialPolling =
       (processWinEvent noUsers 50 False scenarioWin initialPolling)
         \<lparr> lastProcessedBlockRef := Some 1000 \<rparr>
   \<and> showWinResult (pollWith 1800 (clientOf scenarioChain) noUsers 50 initialPolling) = False
   \<and> w_blockNumber scenarioWin \<le> w_blockNumber (last [scenarioWin])"
proof -
  have h: "lastProcessedBlockRef initialPolling = None"
    "getBlockNumber (clientOf scenarioChain) = Some 1000"
    "getWinLogs (clientOf scenarioChain) (clampBlock (1000 - 1800)) 1000 = Some [scenarioWin]"
    using scenario_window [of 1800]
    by (simp_all add: initialPolling_def clientOf_def scenarioChain_def)
  have off: "showWinResult initialPolling = False"
    by (simp add: initialPolling_def)
  note t = first_poll_backfill [where st = initialPolling and client = "clientOf scenarioChain"
        and cb = 1000 and lookback = 1800 and logs = "[scenarioWin]" and users = noUsers
        and now = 50 and g = "\<lambda>_ _. None"]
  have e: "pollWith 1800 (clientOf scenarioChain) noUsers 50 initialPolling =
       (processWinEvent noUsers 50 False scenarioWin initialPolling)
         \<lparr> lastProcessedBlockRef := Some 1000 \<rparr>"
    using t h by simp
  have s: "showWinResult (pollWith 1800 (clientOf scenarioChain) noUsers 50 initialPolling) = False"
    using t by blast
  show ?thesis
    using h e s by simp
qed

lemma spins_keep_cursor:
  "lastProcessedBlockRef (snd (spinEvents users now logs st)) = lastProcessedBlockRef st
   \<and> consoleErrors (snd (spinEvents users now logs st)) = consoleErrors st"
  by (induction logs arbitrary: now st) (simp_all add: processSpinEvent_apply)

lemma logPollError_fields:
  "lastProcessedBlockRef (logPollError st) = lastProcessedBlockRef st
   \<and> consoleErrors (logPollError st) = consoleErrors st @ [''Failed to poll for events:'']"
  by (simp add: logPollError_def)

lemma failed_poll_fields:
  assumes "pollFails lookback client st"
  shows "lastProcessedBlockRef (pollWith lookback client users now st) = lastProcessedBlockRef st
       \<and> consoleErrors (pollWith lookback client users now st)
           = consoleErrors st @ [''Failed to poll for events:'']"
proof (cases "getBlockNumber client")
  case None
  then show ?thesis
    by (simp add: pollWith_def logPollError_fields)
next
  case (Some cb)
  note block = Some
  show ?thesis
  proof (cases "lastProcessedBlockRef st")
    case None
    then show ?thesis
      using assms block by (simp add: pollFails_def pollWith_def firstPoll_def logPollError_fields)
  next
    case (Some lp)
    then have range: "lp + 1 \<le> cb"
      and fail: "getSpinLogs client (lp + 1) cb = None \<or> getWinLogs client (lp + 1) cb = None"
      using assms block by (simp_all add: pollFails_def)
    show ?thesis
    proof (cases "getSpinLogs client (lp + 1) cb")
      case None
      then show ?thesis
        using block Some range
        by (simp add: pollWith_def laterPoll_def logPollError_fields)
    next
      case (Some spinLogs)
      then have wins: "getWinLogs client (lp + 1) cb = None"
        using fail by simp
      obtain now1 st1 where run: "spinEvents users now spinLogs st = (now1, st1)"
        by (cases "spinEvents users now spinLogs st")
      have kept: "lastProcessedBlockRef st1 = lastProcessedBlockRef st
          \<and> consoleErrors st1 = consoleErrors st"
        using spins_keep_cursor [of users now spinLogs st] run by simp
      show ?thesis
        using block \<open>lastProcessedBlockRef st = Some lp\<close> range Some wins run kept
        by (simp add: pollWith_def laterPoll_def logPollError_fields)
    qed
  qed
qed

lemma failed_first_poll:
  assumes "pollFails lookback client st" and "lastProcessedBlockRef st = None"
  shows "pollWith lookback client users now st = logPollError st"
  using assms
  by (cases "getBlockNumber client") (simp_all add: pollFails_def pollWith_def firstPoll_def)

lemma processSpinEvent_console:
  "processSpinEvent users now spinner epoch (st\<lparr> consoleErrors := x \<rparr>)
     = (processSpinEvent users now spinner epoch st)\<lparr> consoleErrors := x \<rparr>"
  by (simp add: processSpinEvent_apply)

lemma processWinEvent_console:
  "processWinEvent users now isNew log (st\<lparr> consoleErrors := x \<rparr>)
     = (processWinEvent users now isNew log st)\<lparr> consoleErrors := x \<rparr>"
  by (simp add: processWinEvent_def Let_def)

lemma spinEvents_console:
  "spinEvents users now logs (st\<lparr> consoleErrors := x \<rparr>)
     = (fst (spinEvents users now logs st), (snd (spinEvents users now logs st))\<lparr> consoleErrors := x \<rparr>)"
  by (induction logs arbitrary: now st) (simp_all add: processSpinEvent_console)

lemma winEvents_console:
  "winEvents users now isNew logs (st\<lparr> consoleErrors := x \<rparr>)
     = (fst (winEvents users now isNew logs st),
        (snd (winEvents users now isNew logs st))\<lparr> consoleErrors := x \<rparr>)"
  by (induction logs arbitrary: now st) (simp_all add: processWinEvent_console)

lemma poll_console:
  "sameButLog (pollWith lookback client users now (st\<lparr> consoleErrors := x \<rparr>))
     (pollWith lookback client users now st)"
proof (cases "getBlockNumber client")
  case None
  then show ?thesis
    by (simp add: pollWith_def sameButLog_def logPollError_def)
next
  case (Some cb)
  note block = Some
  show ?thesis
  proof (cases "lastProcessedBlockRef st")
    case None
    then show ?thesis
      using block
      by (auto simp: pollWith_def firstPoll_def processWinEvent_console sameButLog_def
          logPollError_def split: option.splits)
  next
    case (Some lp)
    note cursor = Some
    show ?thesis
    proof (cases "cb \<le> lp")
      case True
      then show ?thesis
        using block cursor by (simp add: pollWith_def laterPoll_def sameButLog_def)
    next
      case False
      note range = False
      show ?thesis
      proof (cases "getSpinLogs client (lp + 1) cb")
        case None
        then show ?thesis
          using block cursor range
          by (simp add: pollWith_def laterPoll_def sameButLog_def logPollError_def)
      next
        case (Some spinLogs)
        obtain now1 st1 where run: "spinEvents users now spinLogs st = (now1, st1)"
          by (cases "spinEvents users now spinLogs st")
        have run': "spinEvents users now spinLogs (st\<lparr> consoleErrors := x \<rparr>)
            = (now1, st1\<lparr> consoleErrors := x \<rparr>)"
          by (simp add: spinEvents_console run)
        show ?thesis
          using block cursor range Some run run'
          by (cases "getWinLogs client (lp + 1) cb")
            (simp_all add: pollWith_def laterPoll_def winEvents_console sameButLog_def
              logPollError_def)
      qed
    qed
  qed
qed

lemma later_poll_result:
  assumes "lastProcessedBlockRef st = Some lp"
    and "getBlockNumber client = Some cb"
    and "lp + 1 \<le> cb"
    and "getSpinLogs client (lp + 1) cb = Some spins"
    and "getWinLogs client (lp + 1) cb = Some wins"
  shows "pollWith lookback client users now st =
     (snd (winEvents users (fst (spinEvents users now spins st)) True wins
             (snd (spinEvents users now spins st))))
       \<lparr> lastProcessedBlockRef := Some cb \<rparr>"
  using assms by (simp add: pollWith_def laterPoll_def split: prod.splits)

lemma edge_window:
  "getWinLogs (clientOf chainAt5000) (clampBlock (5000 - POLL_LOOKBACK)) 5000 = Some [edgeWin]"
  "getWinLogs (clientOf chainAt5001) (clampBlock (5001 - POLL_LOOKBACK)) 5001 = Some []"
  "getBlockNumber (clientOf chainAt5000) = Some 5000"
  "getBlockNumber (clientOf chainAt5001) = Some 5001"
  by (simp_all add: clientOf_def chainAt5000_def chainAt5001_def clampBlock_def edgeWin_def
      POLL_LOOKBACK_def)

lemma later_window:
  "getBlockNumber (clientOf chainAt1002) = Some 1002"
  "getSpinLogs (clientOf chainAt1002) (1000 + 1) 1002 = Some [scenarioSpin]"
  "getWinLogs (clientOf chainAt1002) (1000 + 1) 1002 = Some [otherWin]"
  by (simp_all add: clientOf_def chainAt1002_def scenarioSpin_def scenarioWin_def otherWin_def)

lemma seededPolling_eval:
  "seededPolling = (processWinEvent noUsers 10 False scenarioWin initialPolling)
       \<lparr> lastProcessedBlockRef := Some 1000 \<rparr>"
  unfolding seededPolling_def pollForEvents_def
  by (rule scenario_poll) (simp add: POLL_LOOKBACK_def)

lemma seededPolling_cursor:
  "lastProcessedBlockRef seededPolling = Some 1000"
  by (simp add: seededPolling_eval)

lemma seededPolling_lastWinId:
  "lastWinIdRef seededPolling = Some ''win-0xA11ce-7-0xfeed''"
proof -
  have fresh: "lastWinIdRef initialPolling \<noteq>
      Some (winIdOf (w_spinner scenarioWin) (w_epochId scenarioWin) (w_transactionHash scenarioWin))"
    by (simp add: initialPolling_def)
  show ?thesis
    by (simp add: seededPolling_eval processWinEvent_apply [OF fresh] scenario_ids)
qed

lemma laterFailed_eval:
  "laterFailed = logPollError (processSpinEvent noUsers 2010 ''0xB0b'' 8 seededPolling)"
  by (simp add: laterFailed_def pollForEvents_def pollWith_def laterPoll_def faultyClientOf_def
      clientOf_def chainAt1002_def seededPolling_cursor scenarioSpin_def)

lemma laterFailed_lastWinId:
  "lastWinIdRef laterFailed = Some ''win-0xA11ce-7-0xfeed''"
  by (simp add: laterFailed_eval logPollError_def processSpinEvent_apply seededPolling_lastWinId)

text \<open>
  C3 as stated fails in two places. The mount fetch of the watching hook sets its marker
  before the fetch starts: after a failed fetch the marker has changed, the next run of
  the effect with a healthy client fetches nothing, and the win at block 950 that an
  unfailed fetch finds is never shown. In the polling hook, a first poll at head 5000 finds
  the win at block 1400, the first block of its window; when that poll fails and is tried
  again at head 5001, the window has moved past the win: it is not seeded, and the cursor
  is set beyond it.
\<close>

theorem mount_fetch_failure_not_retried:
  "hasFetchedInitial initialWatching = False
   \<and> hasFetchedInitial mountFailed = True
   \<and> consoleErrors mountFailed = [''Failed to fetch recent win:'']
   \<and> mountAgain = mountFailed
   \<and> lastWin mountAgain = None
   \<and> lastWin (mountEffect (Some (clientOf scenarioChain)) noUsers 20 initialWatching) \<noteq> None
   \<and> map_option win_id (lastWin (pollForEvents (clientOf chainAt5000) noUsers 10 initialPolling))
       = Some ''win-0xB0b-3-0xd00d''
   \<and> lastProcessedBlockRef backfillFailed = None
   \<and> consoleErrors backfillFailed = [''Failed to poll for events:'']
   \<and> lastWin backfillRetried = None
   \<and> lastProcessedBlockRef backfillRetried = Some 5001"
proof -
  have f: "mountFailed = initialWatching\<lparr> consoleErrors := [''Failed to fetch recent win:''],
                                         hasFetchedInitial := True \<rparr>"
    by (simp add: mountFailed_def mountEffect_def fetchRecentWin_def faultyClientOf_def
        clientOf_def scenarioChain_def initialWatching_def logFetchError_def)
  have a: "mountAgain = mountFailed"
    by (simp add: mountAgain_def mountEffect_def f)
  have ok: "lastWin (mountEffect (Some (clientOf scenarioChain)) noUsers 20 initialWatching) \<noteq> None"
    using scenario_mount [of noUsers 20] by auto
  have m: "hasFetchedInitial mountFailed = True
      \<and> consoleErrors mountFailed = [''Failed to fetch recent win:'']
      \<and> lastWin mountFailed = None"
    by (simp add: f initialWatching_def)
  have i: "hasFetchedInitial initialWatching = False"
    by (simp add: initialWatching_def)
  have cur: "lastProcessedBlockRef initialPolling = None"
    and fresh: "lastWinIdRef initialPolling \<noteq>
      Some (winIdOf (w_spinner edgeWin) (w_epochId edgeWin) (w_transactionHash edgeWin))"
    by (simp_all add: initialPolling_def)
  have good: "map_option win_id
        (lastWin (pollForEvents (clientOf chainAt5000) noUsers 10 initialPolling))
       = Some ''win-0xB0b-3-0xd00d''"
    unfolding pollForEvents_def firstPoll_result [OF cur edge_window(3) edge_window(1)]
    by (simp add: processWinEvent_apply [OF fresh])
      (simp add: winIdOf_def edgeWin_def toString.simps digitChar_def)
  have failed: "backfillFailed = logPollError initialPolling"
    by (simp add: backfillFailed_def pollForEvents_def pollWith_def firstPoll_def
        faultyClientOf_def clientOf_def chainAt5000_def cur)
  have cur': "lastProcessedBlockRef backfillFailed = None"
    by (simp add: failed logPollError_def cur)
  have retried: "backfillRetried = backfillFailed\<lparr> lastProcessedBlockRef := Some 5001 \<rparr>"
    unfolding backfillRetried_def pollForEvents_def
      firstPoll_result [OF cur' edge_window(4) edge_window(2)]
    by simp
  have b: "lastProcessedBlockRef backfillFailed = None
      \<and> consoleErrors backfillFailed = [''Failed to poll for events:'']
      \<and> lastWin backfillRetried = None
      \<and> lastProcessedBlockRef backfillRetried = Some 5001"
    by (simp add: retried) (simp add: failed logPollError_def initialPolling_def)
  show ?thesis
    using i m ok good b by (simp add: a)
qed

text \<open>
  C3, amended. A poll of the polling hook that fails logs the failure and leaves the cursor
  as it was. After a failed later poll, the next tick whose fetches succeed reads the
  range from the block after the cursor to the then-current block and applies every spin
  and every win log of it, so nothing after the cursor is skipped. A failed first poll
  changes nothing but the log; the cursor stays empty, so the next tick runs the backfill
  again, over the lookback window counted back from the then-current block, and behaves
  as it would have without the logged failure. The mount fetch of the watching hook is
  different: its marker is set as soon as the effect runs with a client, and once it is
  set the effect does nothing, so a failed mount fetch is logged and not retried.
\<close>

theorem failed_poll_keeps_cursor:
  "(pollFails lookback client st \<longrightarrow>
      lastProcessedBlockRef (pollWith lookback client users now st) = lastProcessedBlockRef st
      \<and> consoleErrors (pollWith lookback client users now st)
          = consoleErrors st @ [''Failed to poll for events:''])
   \<and> (pollFails lookback client st \<and> lastProcessedBlockRef st = Some lp
        \<and> getBlockNumber client' = Some cb' \<and> lp + 1 \<le> cb'
        \<and> getSpinLogs client' (lp + 1) cb' = Some spins
        \<and> getWinLogs client' (lp + 1) cb' = Some wins \<longrightarrow>
        pollWith lookback client' users' now' (pollWith lookback client users now st)
          = (snd (winEvents users'
                   (fst (spinEvents users' now' spins (pollWith lookback client users now st)))
                   True wins
                   (snd (spinEvents users' now' spins (pollWith lookback client users now st)))))
              \<lparr> lastProcessedBlockRef := Some cb' \<rparr>)
   \<and> (pollFails lookback client st \<and> lastProcessedBlockRef st = None \<longrightarrow>
        pollWith lookback client users now st = logPollError st)
   \<and> (pollFails lookback client st \<and> lastProcessedBlockRef st = None
        \<and> getBlockNumber client' = Some cb'
        \<and> getWinLogs client' (clampBlock (cb' - lookback)) cb' = Some logs \<longrightarrow>
        pollWith lookback client' users' now' (pollWith lookback client users now st)
          = (if logs = [] then logPollError st
             else processWinEvent users' now' False (last logs) (logPollError st))
              \<lparr> lastProcessedBlockRef := Some cb' \<rparr>)
   \<and> sameButLog (pollWith lookback client' users' now' (logPollError st))
        (pollWith lookback client' users' now' st)
   \<and> (\<not> hasFetchedInitial ws \<longrightarrow> hasFetchedInitial (mountEffect (Some client) users now ws))
   \<and> (hasFetchedInitial ws \<longrightarrow> mountEffect publicClient users now ws = ws)"
  (is "?A \<and> ?B \<and> ?C \<and> ?D \<and> ?E \<and> ?F \<and> ?G")
proof -
  have a: "?A"
    using failed_poll_fields [of lookback client st users now] by blast
  have b: "?B"
  proof
    assume h: "pollFails lookback client st \<and> lastProcessedBlockRef st = Some lp
        \<and> getBlockNumber client' = Some cb' \<and> lp + 1 \<le> cb'
        \<and> getSpinLogs client' (lp + 1) cb' = Some spins
        \<and> getWinLogs client' (lp + 1) cb' = Some wins"
    then have cur: "lastProcessedBlockRef (pollWith lookback client users now st) = Some lp"
      using failed_poll_fields [of lookback client st users now] by simp
    show "pollWith lookback client' users' now' (pollWith lookback client users now st)
          = (snd (winEvents users'
                   (fst (spinEvents users' now' spins (pollWith lookback client users now st)))
                   True wins
                   (snd (spinEvents users' now' spins (pollWith lookback client users now st)))))
              \<lparr> lastProcessedBlockRef := Some cb' \<rparr>"
      using h by (intro later_poll_result [OF cur]) simp_all
  qed
  have c: "?C"
    using failed_first_poll [of lookback client st users now] by blast
  have d: "?D"
  proof
    assume h: "pollFails lookback client st \<and> lastProcessedBlockRef st = None
        \<and> getBlockNumber client' = Some cb'
        \<and> getWinLogs client' (clampBlock (cb' - lookback)) cb' = Some logs"
    then have failed: "pollWith lookback client users now st = logPollError st"
      using failed_first_poll [of lookback client st users now] by simp
    have cur: "lastProcessedBlockRef (logPollError st) = None"
      using h by (simp add: logPollError_def)
    show "pollWith lookback client' users' now' (pollWith lookback client users now st)
          = (if logs = [] then logPollError st
             else processWinEvent users' now' False (last logs) (logPollError st))
              \<lparr> lastProcessedBlockRef := Some cb' \<rparr>"
      unfolding failed using h by (intro firstPoll_result [OF cur]) simp_all
  qed
  have e: "?E"
    unfolding logPollError_def by (rule poll_console)
  have f: "?F"
    by (auto simp: mountEffect_def fetchRecentWin_def logFetchError_def Let_def
        split: option.splits)
  have g: "?G"
    by (simp add: mountEffect_def split: option.splits)
  show ?thesis
    using a b c d e f g by blast
qed

theorem failed_poll_keeps_cursor_witness:
  "pollFails POLL_LOOKBACK (faultyClientOf FailWinLogs chainAt1002) seededPolling
   \<and> lastProcessedBlockRef seededPolling = Some 1000
   \<and> lastProcessedBlockRef laterFailed = Some 1000
   \<and> consoleErrors laterFailed = consoleErrors seededPolling @ [''Failed to poll for events:'']
   \<and> lastProcessedBlockRef laterRetried = Some 1002
   \<and> map_option win_id (lastWin laterRetried) = Some ''win-0xB0b-8-0xbeef''
   \<and> pollFails POLL_LOOKBACK (faultyClientOf FailWinLogs chainAt5000) initialPolling
   \<and> lastProcessedBlockRef initialPolling = None
   \<and> backfillFailed = logPollError initialPolling
   \<and> backfillRetried = (logPollError initialPolling)\<lparr> lastProcessedBlockRef := Some 5001 \<rparr>
   \<and> \<not> hasFetchedInitial initialWatching
   \<and> hasFetchedInitial mountFailed
   \<and> mountEffect (Some (clientOf scenarioChain)) noUsers 20 mountFailed = mountFailed"
proof -
  have h: "pollFails POLL_LOOKBACK (faultyClientOf FailWinLogs chainAt1002) seededPolling"
    "pollFails POLL_LOOKBACK (faultyClientOf FailWinLogs chainAt5000) initialPolling"
    "lastProcessedBlockRef initialPolling = None"
    "\<not> hasFetchedInitial initialWatching"
    by (simp_all add: pollFails_def faultyClientOf_def clientOf_def chainAt1002_def
        chainAt5000_def seededPolling_cursor initialPolling_def initialWatching_def)
  note t1 = failed_poll_keeps_cursor [where lookback = POLL_LOOKBACK
      and client = "faultyClientOf FailWinLogs chainAt1002" and st = seededPolling
      and users = noUsers and now = 2010 and client' = "clientOf chainAt1002" and users' = noUsers
      and now' = 4010 and lp = 1000 and cb' = 1002 and spins = "[scenarioSpin]"
      and wins = "[otherWin]" and logs = "[]" and ws = initialWatching
      and publicClient = "Some (clientOf scenarioChain)",
      folded pollForEvents_def, folded laterFailed_def, folded laterRetried_def]
  note t2 = failed_poll_keeps_cursor [where lookback = POLL_LOOKBACK
      and client = "faultyClientOf FailWinLogs chainAt5000" and st = initialPolling
      and users = noUsers and now = 10 and client' = "clientOf chainAt5001" and users' = noUsers
      and now' = 2010 and lp = 0 and cb' = 5001 and spins = "[]"
      and wins = "[]" and logs = "[]" and ws = mountFailed
      and publicClient = "Some (clientOf scenarioChain)",
      folded pollForEvents_def, folded backfillFailed_def, folded backfillRetried_def]
  note t3 = failed_poll_keeps_cursor [where lookback = POLL_LOOKBACK
      and client = "clientOf scenarioChain" and st = initialPolling
      and users = noUsers and now = 20 and client' = "clientOf scenarioChain" and users' = noUsers
      and now' = 20 and lp = 0 and cb' = 1000 and spins = "[]"
      and wins = "[]" and logs = "[]" and ws = mountFailed
      and publicClient = "Some (clientOf scenarioChain)"]
  note t4 = failed_poll_keeps_cursor [where lookback = POLL_LOOKBACK
      and client = "faultyClientOf FailWinLogs scenarioChain" and st = initialPolling
      and users = noUsers and now = 10 and client' = "clientOf scenarioChain" and users' = noUsers
      and now' = 20 and lp = 0 and cb' = 1000 and spins = "[]"
      and wins = "[]" and logs = "[]" and ws = initialWatching
      and publicClient = "Some (clientOf scenarioChain)"]
  have a: "lastProcessedBlockRef laterFailed = Some 1000
      \<and> consoleErrors laterFailed = consoleErrors seededPolling @ [''Failed to poll for events:'']"
    using t1 h(1) seededPolling_cursor by simp
  have b: "laterRetried =
      (snd (winEvents noUsers (fst (spinEvents noUsers 4010 [scenarioSpin] laterFailed)) True
             [otherWin] (snd (spinEvents noUsers 4010 [scenarioSpin] laterFailed))))
        \<lparr> lastProcessedBlockRef := Some 1002 \<rparr>"
    using t1 h(1) seededPolling_cursor later_window by simp
  have b1: "lastProcessedBlockRef laterRetried = Some 1002"
    by (simp add: b)
  have fresh: "lastWinIdRef (processSpinEvent noUsers 4010 (s_spinner scenarioSpin)
        (s_epochId scenarioSpin) laterFailed)
      \<noteq> Some (winIdOf (w_spinner otherWin) (w_epochId otherWin) (w_transactionHash otherWin))"
    by (simp add: processSpinEvent_apply laterFailed_lastWinId scenario_ids)
  have b2: "map_option win_id (lastWin laterRetried) = Some ''win-0xB0b-8-0xbeef''"
    by (simp add: b processWinEvent_apply [OF fresh] scenario_ids)
  have c: "backfillFailed = logPollError initialPolling"
    using t2 h(2,3) by blast
  have d: "backfillRetried = (logPollError initialPolling)\<lparr> lastProcessedBlockRef := Some 5001 \<rparr>"
    using t2 h(2,3) edge_window(2,4) by fastforce
  have m: "hasFetchedInitial mountFailed"
    using t4 h(4) unfolding mountFailed_def by blast
  have e: "mountEffect (Some (clientOf scenarioChain)) noUsers 20 mountFailed = mountFailed"
    using t3 m by blast
  show ?thesis
    using h a b1 b2 c d m e seededPolling_cursor by blast
qed

end
